theory Spec2Isabelle
  imports Complex_Main "HOL-Library.Monad_Syntax"
begin

text \<open>
  A shallow embedding of the arXiv search server: the paper record of \<open>models.py\<close>, the
  category table, the identifier normalizer and the response parser of
  \<open>arxiv_client.py\<close>, the parameter checks of the two search clients and the query
  builder of \<open>server.py\<close>. A function that can raise returns \<open>error + 'a\<close>, with \<open>Inl\<close>
  for the exception; the search operations are followed up to the request they send, so
  that a result \<open>Inl\<close> means that no request is issued. Python integers are \<open>int\<close>.
\<close>

section \<open>Python strings\<close>

text \<open>
  A Python \<open>str\<close> is modelled as a \<open>string\<close>; each \<open>char\<close> stands for one code point
  below 256. The helpers below follow the built-in methods the sources call.
\<close>

text \<open>Truth value of an \<open>Optional[str]\<close>: \<open>None\<close> and the empty string are false.\<close>

fun truthy :: "string option \<Rightarrow> bool" where
  "truthy None = False"
| "truthy (Some s) = (s \<noteq> [])"

text \<open>\<open>s.startswith(p)\<close>.\<close>

fun startswith :: "string \<Rightarrow> string \<Rightarrow> bool" where
  "startswith s [] = True"
| "startswith [] (p # ps) = False"
| "startswith (c # s) (p # ps) = (c = p \<and> startswith s ps)"

text \<open>\<open>c.isspace()\<close> for a code point below 256.\<close>

definition isspace :: "char \<Rightarrow> bool" where
  "isspace c = ((of_char c :: int) \<in> {9, 10, 11, 12, 13, 28, 29, 30, 31, 32, 133, 160})"

text \<open>\<open>s.strip()\<close>.\<close>

definition strip :: "string \<Rightarrow> string" where
  "strip s = rev (dropWhile isspace (rev (dropWhile isspace s)))"

text \<open>\<open>s.replace(old, new)\<close>: the occurrences of \<open>old\<close> from the left, not overlapping.\<close>

fun replace :: "string \<Rightarrow> string \<Rightarrow> string \<Rightarrow> string" where
  "replace [] new s = new @ concat (map (\<lambda>c. c # new) s)"
| "replace (p # ps) new [] = []"
| "replace (p # ps) new (c # cs) =
     (if c = p \<and> startswith cs ps then new @ replace (p # ps) new (drop (length ps) cs)
      else c # replace (p # ps) new cs)"

text \<open>\<open>sep.join(xs)\<close>.\<close>

fun join :: "string \<Rightarrow> string list \<Rightarrow> string" where
  "join sep [] = []"
| "join sep [x] = x"
| "join sep (x # y # ys) = x @ sep @ join sep (y # ys)"

text \<open>\<open>a < b\<close> on strings: by code point, a proper prefix first.\<close>

fun str_less :: "string \<Rightarrow> string \<Rightarrow> bool" where
  "str_less [] [] = False"
| "str_less [] (y # ys) = True"
| "str_less (x # xs) [] = False"
| "str_less (x # xs) (y # ys) =
     ((of_char x :: int) < of_char y \<or> (x = y \<and> str_less xs ys))"

text \<open>\<open>s.split(c)\<close> for a one-character separator: never an empty list.\<close>

function split_chr :: "char \<Rightarrow> string \<Rightarrow> string list" where
  "split_chr c s =
     (case dropWhile (\<lambda>x. x \<noteq> c) s of
        [] \<Rightarrow> [takeWhile (\<lambda>x. x \<noteq> c) s]
      | x # rest \<Rightarrow> takeWhile (\<lambda>x. x \<noteq> c) s # split_chr c rest)"
  by pat_completeness auto
termination
proof (relation "measure (\<lambda>(c, s). length s)")
  show "wf (measure (\<lambda>(c, s). length s))"
    by simp
next
  fix c :: char and s :: string and x rest
  assume "dropWhile (\<lambda>x. x \<noteq> c) s = x # rest"
  then have "length (dropWhile (\<lambda>x. x \<noteq> c) s) = Suc (length rest)"
    by simp
  moreover have "length (dropWhile (\<lambda>x. x \<noteq> c) s) \<le> length s"
    by (rule length_dropWhile_le)
  ultimately show "((c, rest), (c, s)) \<in> measure (\<lambda>(c, s). length s)"
    by simp
qed

declare split_chr.simps [simp del]

text \<open>\<open>s.lower()\<close>, code point by code point.\<close>

definition lower_chr :: "char \<Rightarrow> char" where
  "lower_chr c =
     (let n = (of_char c :: int)
      in if (65 \<le> n \<and> n \<le> 90) \<or> (192 \<le> n \<and> n \<le> 222 \<and> n \<noteq> 215)
         then char_of (n + 32) else c)"

definition lower :: "string \<Rightarrow> string" where
  "lower s = map lower_chr s"

text \<open>The exceptions the modelled code raises, each with its message.\<close>

datatype error = ValueError string | TypeError string | RuntimeError string

section \<open>models.py\<close>

record AISummary =
  model_version :: string
  generated_at :: int
  summary :: string
  key_contributions :: "string list"
  methodology :: string
  experiments :: string
  related_research :: "string list"
  limitations :: "string list"
  tags :: "string list"

record ArxivPaper =
  arxiv_id :: string
  title :: string
  authors :: "string list"
  abstract :: string
  categories :: "string list"
  published_date :: string
  comment :: "string option"
  ai_summary :: "AISummary option"
  score :: "real option"
  pdf_url :: "string option"

text \<open>
  The validator \<open>_populate_pdf_url(cls, v, values)\<close>, which runs on every construction
  (\<open>always=True\<close>); \<open>values.get('arxiv_id')\<close> is the already validated identifier.
\<close>

definition populate_pdf_url :: "string option \<Rightarrow> string \<Rightarrow> string option" where
  "populate_pdf_url v aid =
     (if truthy v then v
      else if aid \<noteq> [] then Some (''https://arxiv.org/pdf/'' @ aid)
      else None)"

text \<open>The constructor \<open>ArxivPaper(...)\<close>: the fields as given, \<open>pdf_url\<close> through its validator.\<close>

definition new_ArxivPaper ::
  "string \<Rightarrow> string \<Rightarrow> string list \<Rightarrow> string \<Rightarrow> string list \<Rightarrow> string \<Rightarrow>
   string option \<Rightarrow> AISummary option \<Rightarrow> real option \<Rightarrow> string option \<Rightarrow> ArxivPaper" where
  "new_ArxivPaper aid ttl auths abstr cats pub cmt ai sc url =
     \<lparr> arxiv_id = aid, title = ttl, authors = auths, abstract = abstr, categories = cats,
       published_date = pub, comment = cmt, ai_summary = ai, score = sc,
       pdf_url = populate_pdf_url url aid \<rparr>"

section \<open>arxiv_client.py: the keyword request\<close>

text \<open>The query parameters of the GET request that \<open>ArxivClient.search\<close> issues.\<close>

record search_params =
  search_query :: string
  start_param :: int
  max_results_param :: int
  sortBy :: string
  sortOrder :: string

text \<open>
  \<open>ArxivClient.search(query, max_results, start, sort_by, sort_order)\<close> up to the request:
  either a check raises, or the request with these parameters is issued.
\<close>

definition ArxivClient_search ::
  "string \<Rightarrow> int \<Rightarrow> int \<Rightarrow> string \<Rightarrow> string \<Rightarrow> error + search_params" where
  "ArxivClient_search query max_results start sort_by sort_order =
     (if max_results > 15 \<or> max_results < 1
      then Inl (ValueError ''Number of results per page must be between 1 and 15'')
      else if start < 0
      then Inl (ValueError ''Start index must be greater than or equal to 0'')
      else Inr \<lparr> search_query = query, start_param = start, max_results_param = max_results,
                 sortBy = sort_by, sortOrder = sort_order \<rparr>)"

section \<open>semantic_search_client.py: the semantic request\<close>

text \<open>
  The JSON body of the POST request; an optional key that is \<open>None\<close> is left out of the
  body, which the option type records.
\<close>

record semantic_payload =
  payload_query :: string
  payload_page :: int
  payload_page_size :: int
  payload_search_by_paper :: bool
  payload_use_rewrite :: bool
  payload_categories :: "string list option"
  payload_start_time :: "string option"
  payload_end_time :: "string option"

text \<open>\<open>start_time and end_time and start_time > end_time\<close>.\<close>

fun start_after_end :: "string option \<Rightarrow> string option \<Rightarrow> bool" where
  "start_after_end (Some s) (Some e) = (s \<noteq> [] \<and> e \<noteq> [] \<and> str_less e s)"
| "start_after_end _ _ = False"

text \<open>\<open>SemanticSearchClient.search\<close> up to the request.\<close>

definition SemanticSearchClient_search ::
  "string \<Rightarrow> int \<Rightarrow> int \<Rightarrow> bool \<Rightarrow> string list option \<Rightarrow> string option \<Rightarrow> string option
     \<Rightarrow> error + semantic_payload" where
  "SemanticSearchClient_search query page page_size use_rewrite cats start_time end_time =
     (if strip query = [] then Inl (ValueError ''Query content cannot be empty'')
      else if page < 1
      then Inl (ValueError ''Page number must be greater than or equal to 1'')
      else if page_size < 1 \<or> page_size > 15
      then Inl (ValueError ''Number of results per page must be between 1 and 15'')
      else if start_after_end start_time end_time
      then Inl (ValueError ''Start date cannot be later than end date'')
      else Inr \<lparr> payload_query = query, payload_page = page, payload_page_size = page_size,
                 payload_search_by_paper = False, payload_use_rewrite = use_rewrite,
                 payload_categories = cats, payload_start_time = start_time,
                 payload_end_time = end_time \<rparr>)"

section \<open>server.py: the keyword query\<close>

text \<open>The double quote that the title, author and abstract clauses put around the value.\<close>

definition dquote :: char where
  "dquote = CHR 0x22"

text \<open>\<open>if v: query_parts.append(f(v))\<close>.\<close>

fun clause :: "(string \<Rightarrow> string) \<Rightarrow> string option \<Rightarrow> string list" where
  "clause f None = []"
| "clause f (Some v) = (if v \<noteq> [] then [f v] else [])"

text \<open>
  The date clause of \<open>search_keyword\<close>. Its \<open>try\<close> block holds \<open>str.replace\<close>, two
  concatenations and an \<open>append\<close>, none of which raises on strings, so the handler that
  would raise \<open>Invalid date format. Please use YYYY-MM-DD.\<close> is never entered.
\<close>

fun date_clause :: "string option \<Rightarrow> string option \<Rightarrow> string list" where
  "date_clause (Some start_date) (Some end_date) =
     (if start_date \<noteq> [] \<and> end_date \<noteq> []
      then [''submittedDate:['' @ (replace ''-'' [] start_date @ ''0000'') @ '' TO ''
              @ (replace ''-'' [] end_date @ ''2359'') @ '']'']
      else [])"
| "date_clause _ _ = []"

text \<open>The list \<open>query_parts\<close> that \<open>search_keyword\<close> builds, in the order of its appends.\<close>

definition query_parts ::
  "string option \<Rightarrow> string option \<Rightarrow> string option \<Rightarrow> string option \<Rightarrow> string option
     \<Rightarrow> string option \<Rightarrow> string option \<Rightarrow> string list" where
  "query_parts ttl author abstr category all_fields start_date end_date =
     clause (\<lambda>v. ''ti:'' @ [dquote] @ v @ [dquote]) ttl
     @ clause (\<lambda>v. ''au:'' @ [dquote] @ v @ [dquote]) author
     @ clause (\<lambda>v. ''abs:'' @ [dquote] @ v @ [dquote]) abstr
     @ clause (\<lambda>v. ''cat:'' @ v) category
     @ clause (\<lambda>v. ''all:'' @ v) all_fields
     @ date_clause start_date end_date"

text \<open>The query string of \<open>search_keyword\<close>, or the error raised for an empty list.\<close>

definition keyword_query ::
  "string option \<Rightarrow> string option \<Rightarrow> string option \<Rightarrow> string option \<Rightarrow> string option
     \<Rightarrow> string option \<Rightarrow> string option \<Rightarrow> error + string" where
  "keyword_query ttl author abstr category all_fields start_date end_date =
     (let parts = query_parts ttl author abstr category all_fields start_date end_date
      in if parts = []
         then Inl (ValueError
                ''At least one search criterion (title, author, etc.) must be provided.'')
         else Inr (join '' AND '' parts))"

text \<open>
  \<open>search_keyword\<close> up to the request; \<open>client_ready\<close> says that the module's
  \<open>arxiv_client\<close> is not \<open>None\<close>.
\<close>

definition search_keyword ::
  "bool \<Rightarrow> int \<Rightarrow> int \<Rightarrow> string \<Rightarrow> string \<Rightarrow> string option \<Rightarrow> string option \<Rightarrow> string option
     \<Rightarrow> string option \<Rightarrow> string option \<Rightarrow> string option \<Rightarrow> string option
     \<Rightarrow> error + search_params" where
  "search_keyword client_ready page page_size sort_by sort_order ttl author abstr category
       start_date end_date all_fields =
     (if \<not> client_ready then Inl (RuntimeError ''ArxivClient not initialized'')
      else case keyword_query ttl author abstr category all_fields start_date end_date of
             Inl e \<Rightarrow> Inl e
           | Inr query \<Rightarrow>
               ArxivClient_search query page_size ((page - 1) * page_size) sort_by sort_order)"

section \<open>arxiv_client.py: the category table\<close>

text \<open>\<open>ARXIV_CATEGORIES\<close>: the dictionary as the list of its items, in the order of the source.\<close>

definition ARXIV_CATEGORIES :: "(string \<times> string) list" where
  "ARXIV_CATEGORIES =
     [(''cs.AI'', ''Artificial Intelligence''),
      (''cs.AR'', ''Hardware Architecture''),
      (''cs.CC'', ''Computational Complexity''),
      (''cs.CE'', ''Computational Engineering, Finance, and Science''),
      (''cs.CG'', ''Computational Geometry''),
      (''cs.CL'', ''Computation and Language''),
      (''cs.CR'', ''Cryptography and Security''),
      (''cs.CV'', ''Computer Vision and Pattern Recognition''),
      (''cs.CY'', ''Computers and Society''),
      (''cs.DB'', ''Databases''),
      (''cs.DC'', ''Distributed, Parallel, and Cluster Computing''),
      (''cs.DL'', ''Digital Libraries''),
      (''cs.DM'', ''Discrete Mathematics''),
      (''cs.DS'', ''Data Structures and Algorithms''),
      (''cs.ET'', ''Emerging Technologies''),
      (''cs.FL'', ''Formal Languages and Automata Theory''),
      (''cs.GL'', ''General Literature''),
      (''cs.GR'', ''Graphics''),
      (''cs.GT'', ''Computer Science and Game Theory''),
      (''cs.HC'', ''Human-Computer Interaction''),
      (''cs.IR'', ''Information Retrieval''),
      (''cs.IT'', ''Information Theory''),
      (''cs.LG'', ''Machine Learning''),
      (''cs.LO'', ''Logic in Computer Science''),
      (''cs.MA'', ''Multiagent Systems''),
      (''cs.MM'', ''Multimedia''),
      (''cs.MS'', ''Mathematical Software''),
      (''cs.NA'', ''Numerical Analysis''),
      (''cs.NE'', ''Neural and Evolutionary Computing''),
      (''cs.NI'', ''Networking and Internet Architecture''),
      (''cs.OH'', ''Other Computer Science''),
      (''cs.OS'', ''Operating Systems''),
      (''cs.PF'', ''Performance''),
      (''cs.PL'', ''Programming Languages''),
      (''cs.RO'', ''Robotics''),
      (''cs.SC'', ''Symbolic Computation''),
      (''cs.SD'', ''Sound''),
      (''cs.SE'', ''Software Engineering''),
      (''cs.SI'', ''Social and Information Networks''),
      (''cs.SY'', ''Systems and Control''),
      (''econ.EM'', ''Econometrics''),
      (''eess.AS'', ''Audio and Speech Processing''),
      (''eess.IV'', ''Image and Video Processing''),
      (''eess.SP'', ''Signal Processing''),
      (''math.AC'', ''Commutative Algebra''),
      (''math.AG'', ''Algebraic Geometry''),
      (''math.AP'', ''Analysis of PDEs''),
      (''math.AT'', ''Algebraic Topology''),
      (''math.CA'', ''Classical Analysis and ODEs''),
      (''math.CO'', ''Combinatorics''),
      (''math.CT'', ''Category Theory''),
      (''math.CV'', ''Complex Variables''),
      (''math.DG'', ''Differential Geometry''),
      (''math.DS'', ''Dynamical Systems''),
      (''math.FA'', ''Functional Analysis''),
      (''math.GM'', ''General Mathematics''),
      (''math.GN'', ''General Topology''),
      (''math.GR'', ''Group Theory''),
      (''math.GT'', ''Geometric Topology''),
      (''math.HO'', ''History and Overview''),
      (''math.IT'', ''Information Theory''),
      (''math.KT'', ''K-Theory and Homology''),
      (''math.LO'', ''Logic''),
      (''math.MG'', ''Metric Geometry''),
      (''math.MP'', ''Mathematical Physics''),
      (''math.NA'', ''Numerical Analysis''),
      (''math.NT'', ''Number Theory''),
      (''math.OA'', ''Operator Algebras''),
      (''math.OC'', ''Optimization and Control''),
      (''math.PR'', ''Probability''),
      (''math.QA'', ''Quantum Algebra''),
      (''math.RA'', ''Rings and Algebras''),
      (''math.RT'', ''Representation Theory''),
      (''math.SG'', ''Symplectic Geometry''),
      (''math.SP'', ''Spectral Theory''),
      (''math.ST'', ''Statistics Theory''),
      (''astro-ph.CO'', ''Cosmology and Nongalactic Astrophysics''),
      (''astro-ph.EP'', ''Earth and Planetary Astrophysics''),
      (''astro-ph.GA'', ''Astrophysics of Galaxies''),
      (''astro-ph.HE'', ''High Energy Astrophysical Phenomena''),
      (''astro-ph.IM'', ''Instrumentation and Methods for Astrophysics''),
      (''astro-ph.SR'', ''Solar and Stellar Astrophysics''),
      (''cond-mat.dis-nn'', ''Disordered Systems and Neural Networks''),
      (''cond-mat.mes-hall'', ''Mesoscale and Nanoscale Physics''),
      (''cond-mat.mtrl-sci'', ''Materials Science''),
      (''cond-mat.other'', ''Other Condensed Matter''),
      (''cond-mat.quant-gas'', ''Quantum Gases''),
      (''cond-mat.soft'', ''Soft Condensed Matter''),
      (''cond-mat.stat-mech'', ''Statistical Mechanics''),
      (''cond-mat.str-el'', ''Strongly Correlated Electrons''),
      (''cond-mat.supr-con'', ''Superconductivity''),
      (''gr-qc'', ''General Relativity and Quantum Cosmology''),
      (''hep-ex'', ''High Energy Physics - Experiment''),
      (''hep-lat'', ''High Energy Physics - Lattice''),
      (''hep-ph'', ''High Energy Physics - Phenomenology''),
      (''hep-th'', ''High Energy Physics - Theory''),
      (''math-ph'', ''Mathematical Physics''),
      (''nlin.AO'', ''Adaptation and Self-Organizing Systems''),
      (''nlin.CD'', ''Chaotic Dynamics''),
      (''nlin.CG'', ''Cellular Automata and Lattice Gases''),
      (''nlin.PS'', ''Pattern Formation and Solitons''),
      (''nlin.SI'', ''Exactly Solvable and Integrable Systems''),
      (''nucl-ex'', ''Nuclear Experiment''),
      (''nucl-th'', ''Nuclear Theory''),
      (''physics.acc-ph'', ''Accelerator Physics''),
      (''physics.ao-ph'', ''Atmospheric and Oceanic Physics''),
      (''physics.app-ph'', ''Applied Physics''),
      (''physics.atm-clus'', ''Atomic and Molecular Clusters''),
      (''physics.atom-ph'', ''Atomic Physics''),
      (''physics.bio-ph'', ''Biological Physics''),
      (''physics.chem-ph'', ''Chemical Physics''),
      (''physics.class-ph'', ''Classical Physics''),
      (''physics.comp-ph'', ''Computational Physics''),
      (''physics.data-an'', ''Data Analysis, Statistics and Probability''),
      (''physics.ed-ph'', ''Physics Education''),
      (''physics.flu-dyn'', ''Fluid Dynamics''),
      (''physics.gen-ph'', ''General Physics''),
      (''physics.geo-ph'', ''Geophysics''),
      (''physics.hist-ph'', ''History and Philosophy of Physics''),
      (''physics.ins-det'', ''Instrumentation and Detectors''),
      (''physics.med-ph'', ''Medical Physics''),
      (''physics.optics'', ''Optics''),
      (''physics.plasm-ph'', ''Plasma Physics''),
      (''physics.pop-ph'', ''Popular Physics''),
      (''physics.soc-ph'', ''Physics and Society''),
      (''physics.space-ph'', ''Space Physics''),
      (''q-bio.BM'', ''Biomolecules''),
      (''q-bio.CB'', ''Cell Behavior''),
      (''q-bio.GN'', ''Genomics''),
      (''q-bio.MN'', ''Molecular Networks''),
      (''q-bio.NC'', ''Neurons and Cognition''),
      (''q-bio.OT'', ''Other Quantitative Biology''),
      (''q-bio.PE'', ''Populations and Evolution''),
      (''q-bio.QM'', ''Quantitative Methods''),
      (''q-bio.SC'', ''Subcellular Processes''),
      (''q-bio.TO'', ''Tissues and Organs''),
      (''q-fin.CP'', ''Computational Finance''),
      (''q-fin.EC'', ''Economics''),
      (''q-fin.GN'', ''General Finance''),
      (''q-fin.MF'', ''Mathematical Finance''),
      (''q-fin.PM'', ''Portfolio Management''),
      (''q-fin.PR'', ''Pricing of Securities''),
      (''q-fin.RM'', ''Risk Management''),
      (''q-fin.ST'', ''Statistical Finance''),
      (''q-fin.TR'', ''Trading and Market Microstructure''),
      (''quant-ph'', ''Quantum Physics''),
      (''stat.AP'', ''Applications''),
      (''stat.CO'', ''Computation''),
      (''stat.ME'', ''Methodology''),
      (''stat.ML'', ''Machine Learning''),
      (''stat.OT'', ''Other Statistics''),
      (''stat.TH'', ''Statistics Theory'')]"

text \<open>\<open>ARXIV_MAJOR_CATEGORIES\<close>: the part of each code before its first dot.\<close>

definition ARXIV_MAJOR_CATEGORIES :: "string set" where
  "ARXIV_MAJOR_CATEGORIES =
     set (map (\<lambda>(code, desc). hd (split_chr (CHR ''.'') code)) ARXIV_CATEGORIES)"

text \<open>\<open>ArxivClient.get_categories(major_category)\<close>; the dictionary as its list of items.\<close>

definition get_categories :: "string option \<Rightarrow> (string \<times> string) list" where
  "get_categories major_category =
     (case major_category of
        None \<Rightarrow> ARXIV_CATEGORIES
      | Some m \<Rightarrow>
          if m = [] then ARXIV_CATEGORIES
          else (let major = lower m
                in if major \<notin> ARXIV_MAJOR_CATEGORIES then []
                   else filter (\<lambda>(code, desc). startswith (lower code) major)
                          ARXIV_CATEGORIES))"

section \<open>arxiv_client.py: the identifier normalizer\<close>

text \<open>The character class \<open>[0-9]\<close>.\<close>

definition isdigit :: "char \<Rightarrow> bool" where
  "isdigit c = (c \<in> set ''0123456789'')"

text \<open>
  The regular expressions of \<open>normalize_arxiv_id\<close> are matched by the functions below,
  each returning what is left of the input. \<open>[0-9]+\<close> is greedy and is always followed by
  a literal that is no digit (or by the end of the pattern), so the only way it can match
  is with the longest run of digits, which must not be empty.
\<close>

definition digits1 :: "string \<Rightarrow> (string \<times> string) option" where
  "digits1 s = (if takeWhile isdigit s = [] then None
                else Some (takeWhile isdigit s, dropWhile isdigit s))"

text \<open>The strings that \<open>[0-9]+\<close> matches as a whole.\<close>

definition digit_string :: "string \<Rightarrow> bool" where
  "digit_string d = (d \<noteq> [] \<and> list_all isdigit d)"

text \<open>A literal character.\<close>

fun lit :: "char \<Rightarrow> string \<Rightarrow> string option" where
  "lit c [] = None"
| "lit c (x # r) = (if x = c then Some r else None)"

text \<open>\<open>(?:v[0-9]+)?\<close> at the end of a pattern: the text matched, empty when the group fails.\<close>

definition version_opt :: "string \<Rightarrow> string" where
  "version_opt s =
     (case lit (CHR ''v'') s of
        None \<Rightarrow> []
      | Some r \<Rightarrow> (case digits1 r of None \<Rightarrow> [] | Some (d3, r') \<Rightarrow> CHR ''v'' # d3))"

text \<open>\<open>([0-9]+\.[0-9]+(?:v[0-9]+)?)\<close> at the start of \<open>s\<close>: the text of the group.\<close>

definition match_id :: "string \<Rightarrow> string option" where
  "match_id s =
     (case digits1 s of
        None \<Rightarrow> None
      | Some (d1, r1) \<Rightarrow>
          (case lit (CHR ''.'') r1 of
             None \<Rightarrow> None
           | Some r2 \<Rightarrow>
               (case digits1 r2 of
                  None \<Rightarrow> None
                | Some (d2, r3) \<Rightarrow> Some (d1 @ ''.'' @ d2 @ version_opt r3))))"

text \<open>\<open>arxiv\.org/(?:abs|pdf)/([0-9]+\.[0-9]+(?:v[0-9]+)?)\<close> at the start of \<open>s\<close>.\<close>

definition match_url :: "string \<Rightarrow> string option" where
  "match_url s =
     (if startswith s ''arxiv.org/abs/'' \<or> startswith s ''arxiv.org/pdf/''
      then match_id (drop (length ''arxiv.org/abs/'') s)
      else None)"

text \<open>\<open>re.search(url_pattern, s)\<close>: the group of the leftmost match.\<close>

fun search_url :: "string \<Rightarrow> string option" where
  "search_url [] = None"
| "search_url (c # cs) =
     (case match_url (c # cs) of Some g \<Rightarrow> Some g | None \<Rightarrow> search_url cs)"

text \<open>\<open>$\<close>: the end of the string, or the position before a final newline.\<close>

definition at_end :: "string \<Rightarrow> bool" where
  "at_end s = (s = [] \<or> s = [CHR 0x0A])"

text \<open>\<open>re.match(r'^[0-9]+\.[0-9]+v[0-9]+$', s)\<close> as a truth value.\<close>

definition match_versioned :: "string \<Rightarrow> bool" where
  "match_versioned s =
     (case digits1 s of
        None \<Rightarrow> False
      | Some (d1, r1) \<Rightarrow>
          (case lit (CHR ''.'') r1 of
             None \<Rightarrow> False
           | Some r2 \<Rightarrow>
               (case digits1 r2 of
                  None \<Rightarrow> False
                | Some (d2, r3) \<Rightarrow>
                    (case lit (CHR ''v'') r3 of
                       None \<Rightarrow> False
                     | Some r4 \<Rightarrow>
                         (case digits1 r4 of
                            None \<Rightarrow> False
                          | Some (d3, r5) \<Rightarrow> at_end r5)))))"

text \<open>\<open>ArxivClient.normalize_arxiv_id(arxiv_id)\<close>.\<close>

definition normalize_arxiv_id :: "string \<Rightarrow> string" where
  "normalize_arxiv_id raw_id =
     (let a = (if startswith raw_id ''http://'' \<or> startswith raw_id ''https://''
               then (case search_url raw_id of
                       Some g \<Rightarrow> replace ''.pdf'' [] g
                     | None \<Rightarrow> raw_id)
               else raw_id)
      in if CHR ''v'' \<in> set a \<and> match_versioned a
         then hd (split_chr (CHR ''v'') a)
         else a)"

section \<open>arxiv_client.py: the response parser\<close>

subsection \<open>Element trees\<close>

text \<open>
  An \<open>xml.etree.ElementTree.Element\<close>: its tag in the form \<open>{namespace}name\<close>, its
  attributes, its text (\<open>None\<close> when the element has none) and its children in document
  order. The parser works on the tree that \<open>ET.fromstring\<close> returns; reading the text
  of the response into a tree is not part of the model.
\<close>

datatype element =
  Element (elem_tag: string) (elem_attrib: "(string \<times> string) list")
    (elem_text: "string option") (elem_children: "element list")

text \<open>The three prefixes of the \<open>namespaces\<close> dictionary, applied to a local name.\<close>

definition atom :: "string \<Rightarrow> string" where
  "atom name = ''{http://www.w3.org/2005/Atom}'' @ name"

definition opensearch :: "string \<Rightarrow> string" where
  "opensearch name = ''{http://a9.com/-/spec/opensearch/1.1/}'' @ name"

definition arxiv :: "string \<Rightarrow> string" where
  "arxiv name = ''{http://arxiv.org/schemas/atom}'' @ name"

text \<open>\<open>e.find(tag)\<close> and \<open>e.findall(tag)\<close>: among the children of \<open>e\<close>.\<close>

definition elem_find :: "string \<Rightarrow> element \<Rightarrow> element option" where
  "elem_find t e = find (\<lambda>c. elem_tag c = t) (elem_children e)"

definition elem_findall :: "string \<Rightarrow> element \<Rightarrow> element list" where
  "elem_findall t e = filter (\<lambda>c. elem_tag c = t) (elem_children e)"

text \<open>The elements below \<open>e\<close> in document order, which the paths \<open>.//tag\<close> range over.\<close>

fun descendants :: "element \<Rightarrow> element list" where
  "descendants (Element t a x cs) = concat (map (\<lambda>c. c # descendants c) cs)"

text \<open>\<open>e.get(key)\<close>.\<close>

definition elem_get :: "string \<Rightarrow> element \<Rightarrow> string option" where
  "elem_get key e = map_of (elem_attrib e) key"

text \<open>\<open>_safe_get_text(element)\<close>.\<close>

fun safe_get_text :: "element option \<Rightarrow> string option" where
  "safe_get_text None = None"
| "safe_get_text (Some e) = elem_text e"

subsection \<open>Numbers and dates\<close>

text \<open>The value of a run of decimal digits, and the digit of a number below ten.\<close>

definition digit_val :: "char \<Rightarrow> int" where
  "digit_val c = of_char c - 48"

definition digits_val :: "string \<Rightarrow> int" where
  "digits_val s = foldl (\<lambda>n c. 10 * n + digit_val c) 0 s"

definition digit_chr :: "int \<Rightarrow> char" where
  "digit_chr n = char_of (48 + n)"

text \<open>
  \<open>int(s)\<close> on a string: white space around (the code points 28 to 31, which \<open>strip\<close>
  removes, are not white space here), an optional sign, then digits with single
  underscores between them; \<open>None\<close> where the call raises \<open>ValueError\<close>. The cap that
  recent interpreters put on the number of digits is left out.
\<close>

definition int_space :: "char \<Rightarrow> bool" where
  "int_space c = ((of_char c :: int) \<in> {9, 10, 11, 12, 13, 32, 133, 160})"

fun int_body :: "string \<Rightarrow> bool" where
  "int_body [] = False"
| "int_body [c] = isdigit c"
| "int_body (c # d # r) =
     (isdigit c \<and> (if d = CHR ''_'' then int_body r else int_body (d # r)))"

definition py_int :: "string \<Rightarrow> int option" where
  "py_int s =
     (let t = rev (dropWhile int_space (rev (dropWhile int_space s)));
          neg = startswith t ''-'';
          body = (if startswith t ''-'' \<or> startswith t ''+'' then tl t else t)
      in if int_body body
         then Some ((if neg then - 1 else 1) * digits_val (filter isdigit body))
         else None)"

text \<open>
  \<open>datetime.strptime(date_str, "%Y-%m-%dT%H:%M:%SZ")\<close> as the interpreter's \<open>_strptime\<close>
  module does it. The format becomes the regular expression
  \<open>(\d\d\d\d)-(1[0-2]|0[1-9]|[1-9])-(3[0-1]|[1-2]\d|0[1-9]|[1-9]| [1-9])T(2[0-3]|[0-1]\d|\d):([0-5]\d|\d):(6[0-1]|[0-5]\d|\d)Z\<close>,
  matched at the start of the string with letter case ignored; text left over after the
  match, a year 0, a day beyond the end of the month and a second above 59 raise
  \<open>ValueError\<close>. A directive is given by its two-character and its one-character
  alternatives; since a directive is always followed by a literal that is no digit, the
  order in which the alternatives are tried does not change the outcome.
\<close>

fun directive ::
  "(char \<Rightarrow> char \<Rightarrow> bool) \<Rightarrow> (char \<Rightarrow> bool) \<Rightarrow> string \<Rightarrow> (string \<times> string) option" where
  "directive two one [] = None"
| "directive two one [c] = (if one c then Some ([c], []) else None)"
| "directive two one (c # d # r) =
     (if two c d then Some ([c, d], r)
      else if one c then Some ([c], d # r)
      else None)"

definition in_range :: "char \<Rightarrow> char \<Rightarrow> char \<Rightarrow> bool" where
  "in_range lo hi c = ((of_char lo :: int) \<le> of_char c \<and> (of_char c :: int) \<le> of_char hi)"

definition month_directive :: "string \<Rightarrow> (string \<times> string) option" where
  "month_directive =
     directive (\<lambda>c d. (c = CHR ''1'' \<and> in_range (CHR ''0'') (CHR ''2'') d)
                     \<or> (c = CHR ''0'' \<and> in_range (CHR ''1'') (CHR ''9'') d))
               (in_range (CHR ''1'') (CHR ''9''))"

definition day_directive :: "string \<Rightarrow> (string \<times> string) option" where
  "day_directive =
     directive (\<lambda>c d. (c = CHR ''3'' \<and> in_range (CHR ''0'') (CHR ''1'') d)
                     \<or> (in_range (CHR ''1'') (CHR ''2'') c \<and> isdigit d)
                     \<or> (c = CHR ''0'' \<and> in_range (CHR ''1'') (CHR ''9'') d)
                     \<or> (c = CHR '' '' \<and> in_range (CHR ''1'') (CHR ''9'') d))
               (in_range (CHR ''1'') (CHR ''9''))"

definition hour_directive :: "string \<Rightarrow> (string \<times> string) option" where
  "hour_directive =
     directive (\<lambda>c d. (c = CHR ''2'' \<and> in_range (CHR ''0'') (CHR ''3'') d)
                     \<or> (in_range (CHR ''0'') (CHR ''1'') c \<and> isdigit d))
               isdigit"

definition minute_directive :: "string \<Rightarrow> (string \<times> string) option" where
  "minute_directive =
     directive (\<lambda>c d. in_range (CHR ''0'') (CHR ''5'') c \<and> isdigit d) isdigit"

definition second_directive :: "string \<Rightarrow> (string \<times> string) option" where
  "second_directive =
     directive (\<lambda>c d. (c = CHR ''6'' \<and> in_range (CHR ''0'') (CHR ''1'') d)
                     \<or> (in_range (CHR ''0'') (CHR ''5'') c \<and> isdigit d))
               isdigit"

definition year_directive :: "string \<Rightarrow> (string \<times> string) option" where
  "year_directive s =
     (if 4 \<le> length s \<and> list_all isdigit (take 4 s) then Some (take 4 s, drop 4 s) else None)"

text \<open>A literal letter of the format, in either case.\<close>

fun lit_ci :: "char \<Rightarrow> string \<Rightarrow> string option" where
  "lit_ci c [] = None"
| "lit_ci c (x # r) = (if lower_chr x = lower_chr c then Some r else None)"

text \<open>The fields of a timestamp that matches the expression as a whole.\<close>

record timestamp =
  ts_year :: int
  ts_month :: int
  ts_day :: int
  ts_hour :: int
  ts_minute :: int
  ts_second :: int

definition match_timestamp :: "string \<Rightarrow> timestamp option" where
  "match_timestamp s = do {
     (y, r) \<leftarrow> year_directive s;
     r \<leftarrow> lit (CHR ''-'') r;
     (m, r) \<leftarrow> month_directive r;
     r \<leftarrow> lit (CHR ''-'') r;
     (d, r) \<leftarrow> day_directive r;
     r \<leftarrow> lit_ci (CHR ''T'') r;
     (h, r) \<leftarrow> hour_directive r;
     r \<leftarrow> lit (CHR '':'') r;
     (mi, r) \<leftarrow> minute_directive r;
     r \<leftarrow> lit (CHR '':'') r;
     (sec, r) \<leftarrow> second_directive r;
     r \<leftarrow> lit_ci (CHR ''Z'') r;
     if r \<noteq> [] then None
     else Some \<lparr> ts_year = digits_val y, ts_month = digits_val m,
                  ts_day = digits_val (filter isdigit d), ts_hour = digits_val h,
                  ts_minute = digits_val mi, ts_second = digits_val sec \<rparr>
   }"

definition days_in_month :: "int \<Rightarrow> int \<Rightarrow> int" where
  "days_in_month y m =
     (if m = 2 then (if y mod 4 = 0 \<and> (y mod 100 \<noteq> 0 \<or> y mod 400 = 0) then 29 else 28)
      else if m \<in> {4, 6, 9, 11} then 30 else 31)"

text \<open>
  \<open>dt.strftime("%Y-%m-%d")\<close>, the year written with four digits (for a year below 1000
  the C library of some platforms leaves the leading zeros out).
\<close>

definition format_date :: "timestamp \<Rightarrow> string" where
  "format_date t =
     [digit_chr (ts_year t div 1000), digit_chr (ts_year t div 100 mod 10),
      digit_chr (ts_year t div 10 mod 10), digit_chr (ts_year t mod 10)]
     @ ''-'' @ [digit_chr (ts_month t div 10), digit_chr (ts_month t mod 10)]
     @ ''-'' @ [digit_chr (ts_day t div 10), digit_chr (ts_day t mod 10)]"

text \<open>\<open>_parse_datetime(date_str)\<close>.\<close>

definition parse_datetime :: "string \<Rightarrow> error + string" where
  "parse_datetime date_str =
     (case match_timestamp date_str of
        None \<Rightarrow> Inl (ValueError ''time data does not match format'')
      | Some t \<Rightarrow>
          if ts_year t < 1 then Inl (ValueError ''year 0 is out of range'')
          else if days_in_month (ts_year t) (ts_month t) < ts_day t
          then Inl (ValueError ''day is out of range for month'')
          else if 59 < ts_second t then Inl (ValueError ''second must be in 0..59'')
          else Inr (format_date t))"

subsection \<open>Entries and responses\<close>

text \<open>The list \<open>authors\<close> of \<open>_parse_entry\<close>: the non-empty names of the author elements.\<close>

definition author_names :: "element \<Rightarrow> string list" where
  "author_names entry =
     concat (map (\<lambda>author.
                    case elem_find (atom ''name'') author of
                      None \<Rightarrow> []
                    | Some name \<Rightarrow> (if truthy (elem_text name) then [the (elem_text name)] else []))
              (elem_findall (atom ''author'') entry))"

text \<open>The list \<open>category_terms\<close>: the \<open>term\<close> attributes that are present.\<close>

definition category_terms :: "element \<Rightarrow> string list" where
  "category_terms entry =
     concat (map (\<lambda>cat. case elem_get ''term'' cat of None \<Rightarrow> [] | Some term \<Rightarrow> [term])
              (elem_findall (atom ''category'') entry))"

text \<open>\<open>text.split('/')[-1].split('v')[0]\<close>, the identifier of the record.\<close>

definition entry_id :: "string \<Rightarrow> string" where
  "entry_id id_text = hd (split_chr (CHR ''v'') (last (split_chr (CHR ''/'') id_text)))"

text \<open>
  \<open>_parse_entry(entry, namespaces)\<close>: \<open>Inr None\<close> where it returns \<open>None\<close>, \<open>Inl\<close> where it
  raises, which only the conversion of the timestamp does.
\<close>

definition parse_entry :: "element \<Rightarrow> error + ArxivPaper option" where
  "parse_entry entry =
     (case (safe_get_text (elem_find (atom ''id'') entry),
            safe_get_text (elem_find (atom ''title'') entry),
            safe_get_text (elem_find (atom ''summary'') entry),
            safe_get_text (elem_find (atom ''published'') entry)) of
        (Some id_text, Some title_text, Some summary_text, Some published_text) \<Rightarrow>
          if id_text = [] \<or> title_text = [] \<or> summary_text = [] \<or> published_text = []
          then Inr None
          else if author_names entry = [] then Inr None
          else if category_terms entry = [] then Inr None
          else (case parse_datetime published_text of
                  Inl e \<Rightarrow> Inl e
                | Inr date \<Rightarrow>
                    Inr (Some (new_ArxivPaper (entry_id id_text) (strip title_text)
                           (author_names entry) (strip summary_text) (category_terms entry)
                           date (safe_get_text (elem_find (arxiv ''comment'') entry))
                           None None None)))
      | _ \<Rightarrow> Inr None)"

text \<open>
  The loop of \<open>_parse_response\<close> over the entries: an entry that raises is logged and
  skipped, an entry without a paper is skipped, a paper is appended.
\<close>

fun parse_entries :: "element list \<Rightarrow> ArxivPaper list" where
  "parse_entries [] = []"
| "parse_entries (entry # entries) =
     (case parse_entry entry of
        Inl e \<Rightarrow> parse_entries entries
      | Inr None \<Rightarrow> parse_entries entries
      | Inr (Some paper) \<Rightarrow> paper # parse_entries entries)"

text \<open>
  \<open>_parse_response\<close> on the parsed document: the total is read first, outside every
  \<open>try\<close>, so that \<open>int\<close> raising ends the call.
\<close>

definition parse_response :: "element \<Rightarrow> error + ArxivPaper list" where
  "parse_response root_elem =
     (case safe_get_text
             (find (\<lambda>e. elem_tag e = opensearch ''totalResults'') (descendants root_elem)) of
        None \<Rightarrow>
          Inl (TypeError
                 ''int() argument must be a string, a bytes-like object or a real number'')
      | Some total_text \<Rightarrow>
          (case py_int total_text of
             None \<Rightarrow> Inl (ValueError ''invalid literal for int() with base 10'')
           | Some total_results \<Rightarrow>
               Inr (parse_entries
                      (filter (\<lambda>e. elem_tag e = atom ''entry'') (descendants root_elem)))))"

subsection \<open>Sample documents\<close>

text \<open>An element with text only, an entry of a feed and a feed, to run the parser on.\<close>

definition text_elem :: "string \<Rightarrow> string \<Rightarrow> element" where
  "text_elem t x = Element t [] (Some x) []"

definition sample_entry :: "string \<Rightarrow> string \<Rightarrow> string list \<Rightarrow> element" where
  "sample_entry id_text published_text names =
     Element (atom ''entry'') [] None
       ([text_elem (atom ''id'') id_text,
         text_elem (atom ''published'') published_text,
         text_elem (atom ''title'') ''A title'',
         text_elem (atom ''summary'') ''A summary'']
        @ map (\<lambda>n. Element (atom ''author'') [] None [text_elem (atom ''name'') n]) names
        @ [Element (atom ''category'') [(''term'', ''cs.AI'')] None []])"

definition sample_feed :: "string option \<Rightarrow> element list \<Rightarrow> element" where
  "sample_feed total_text entries =
     Element (atom ''feed'') [] None
       ((case total_text of
           None \<Rightarrow> []
         | Some t \<Rightarrow> [text_elem (opensearch ''totalResults'') t])
        @ entries)"

definition entry_ann :: element where
  "entry_ann =
     sample_entry ''http://arxiv.org/abs/2301.00001v1'' ''2023-01-01T00:00:00Z'' [''Ann'']"

definition entry_no_author :: element where
  "entry_no_author =
     sample_entry ''http://arxiv.org/abs/2301.00002v2'' ''2023-01-02T00:00:00Z'' []"

definition entry_bob :: element where
  "entry_bob =
     sample_entry ''http://arxiv.org/abs/2301.00003v3'' ''2023-01-03T00:00:00Z''
       [''Bob'', ''Cy'']"

definition entry_bad_date :: element where
  "entry_bad_date = sample_entry ''http://arxiv.org/abs/2301.00004v1'' ''yesterday'' [''Dee'']"

definition entry_bad_date_no_author :: element where
  "entry_bad_date_no_author =
     sample_entry ''http://arxiv.org/abs/2301.00006v1'' ''yesterday'' []"

definition entry_unversioned :: element where
  "entry_unversioned =
     sample_entry ''http://arxiv.org/abs/2301.00005'' ''2023-01-05T00:00:00Z'' [''Eve'']"

definition entry_survey :: element where
  "entry_survey =
     sample_entry ''http://arxiv.org/abs/survey'' ''2023-01-05T00:00:00Z'' [''Eve'']"

definition paper_ann :: ArxivPaper where
  "paper_ann =
     new_ArxivPaper ''2301.00001'' ''A title'' [''Ann''] ''A summary'' [''cs.AI'']
       ''2023-01-01'' None None None None"

definition paper_bob :: ArxivPaper where
  "paper_bob =
     new_ArxivPaper ''2301.00003'' ''A title'' [''Bob'', ''Cy''] ''A summary'' [''cs.AI'']
       ''2023-01-03'' None None None None"

text \<open>
  The identifier as the specification words it: the last segment of the path, without a
  version suffix \<open>v\<close> and digits at its end if it has one.
\<close>

definition strip_version_suffix :: "string \<Rightarrow> string" where
  "strip_version_suffix s =
     (let r = dropWhile isdigit (rev s)
      in if takeWhile isdigit (rev s) \<noteq> [] \<and> startswith r ''v'' then rev (tl r) else s)"

definition spec_entry_id :: "string \<Rightarrow> string" where
  "spec_entry_id id_text = strip_version_suffix (last (split_chr (CHR ''/'') id_text))"

section \<open>Properties of the paper record\<close>

text \<open>
  C8. A paper constructed with a non-empty identifier and without a PDF link carries the link
  \<open>https://arxiv.org/pdf/\<close> followed by the identifier (so the identifier \<open>2301.00001\<close> gives
  \<open>https://arxiv.org/pdf/2301.00001\<close>); whatever the caller passes for the link, the record
  constructed has one; and a link supplied by the caller (a non-empty string) is kept as it is.
\<close>

theorem pdf_url_derived:
  assumes "aid \<noteq> []"
  shows "pdf_url (new_ArxivPaper aid ttl auths abstr cats pub cmt ai sc None)
           = Some (''https://arxiv.org/pdf/'' @ aid)
       \<and> pdf_url (new_ArxivPaper aid ttl auths abstr cats pub cmt ai sc url) \<noteq> None
       \<and> (truthy url \<longrightarrow>
            pdf_url (new_ArxivPaper aid ttl auths abstr cats pub cmt ai sc url) = url)
       \<and> (\<not> truthy url \<longrightarrow>
            pdf_url (new_ArxivPaper aid ttl auths abstr cats pub cmt ai sc url)
              = Some (''https://arxiv.org/pdf/'' @ aid))
       \<and> pdf_url (new_ArxivPaper ''2301.00001'' ttl auths abstr cats pub cmt ai sc None)
           = Some ''https://arxiv.org/pdf/2301.00001''"
  using assms by (cases url) (auto simp: new_ArxivPaper_def populate_pdf_url_def)

theorem pdf_url_derived_witness:
  "''2301.00001'' \<noteq> []
   \<and> pdf_url (new_ArxivPaper ''2301.00001'' ''t'' [''a''] ''s'' [''cs.AI''] ''2023-01-01''
        None None None None) = Some ''https://arxiv.org/pdf/2301.00001''
   \<and> pdf_url (new_ArxivPaper ''2301.00001'' ''t'' [''a''] ''s'' [''cs.AI''] ''2023-01-01''
        None None None (Some ''http://mirror/x.pdf'')) = Some ''http://mirror/x.pdf''
   \<and> pdf_url (new_ArxivPaper ''2301.00001'' ''t'' [''a''] ''s'' [''cs.AI''] ''2023-01-01''
        None None None (Some [])) = Some ''https://arxiv.org/pdf/2301.00001''"
proof -
  have ne: "''2301.00001'' \<noteq> []" by simp
  from pdf_url_derived [OF ne, of "''t''" "[''a'']" "''s''" "[''cs.AI'']" "''2023-01-01''"
      None None None "Some ''http://mirror/x.pdf''"]
    pdf_url_derived [OF ne, of "''t''" "[''a'']" "''s''" "[''cs.AI'']" "''2023-01-01''"
      None None None "Some []"]
  show ?thesis by simp
qed

section \<open>Properties of the keyword query\<close>

lemma clause_empty_iff: "clause f v = [] \<longleftrightarrow> \<not> truthy v"
  by (cases v) auto

lemma clause_truthy: "truthy v \<Longrightarrow> clause f v = [f (the v)]"
  by (cases v) auto

lemma date_clause_empty_iff: "date_clause sd ed = [] \<longleftrightarrow> \<not> (truthy sd \<and> truthy ed)"
  by (cases sd; cases ed) auto

lemma query_parts_empty_iff:
  "query_parts ttl au ab cat af sd ed = [] \<longleftrightarrow>
     \<not> truthy ttl \<and> \<not> truthy au \<and> \<not> truthy ab \<and> \<not> truthy cat \<and> \<not> truthy af
     \<and> \<not> (truthy sd \<and> truthy ed)"
  by (simp add: query_parts_def clause_empty_iff date_clause_empty_iff)

text \<open>
  With no clause at all (no search field and not both dates) the builder raises; in every
  other case the query is the clauses joined by \<open>AND\<close>, in the order of the appends.
\<close>

lemma keyword_query_no_clause:
  assumes "\<not> truthy ttl" "\<not> truthy au" "\<not> truthy ab" "\<not> truthy cat" "\<not> truthy af"
    and "\<not> (truthy sd \<and> truthy ed)"
  shows "keyword_query ttl au ab cat af sd ed =
           Inl (ValueError ''At least one search criterion (title, author, etc.) must be provided.'')"
  using assms by (simp add: keyword_query_def query_parts_empty_iff)

lemma keyword_query_some_field:
  assumes "truthy ttl \<or> truthy au \<or> truthy ab \<or> truthy cat \<or> truthy af"
  shows "keyword_query ttl au ab cat af sd ed =
           Inr (join '' AND '' (query_parts ttl au ab cat af sd ed))"
  using assms by (auto simp: keyword_query_def query_parts_empty_iff)

lemma keyword_query_only_category:
  "keyword_query None None None (Some ''cs.AI'') None None None = Inr ''cat:cs.AI''"
  by (simp add: keyword_query_def query_parts_def)

lemma keyword_query_title_and_dates:
  "keyword_query (Some ''a'') None None None None (Some ''2023-01-01'') (Some ''2023-01-31'')
     = Inr (''ti:'' @ [dquote] @ ''a'' @ [dquote]
            @ '' AND submittedDate:[202301010000 TO 202301312359]'')"
  by (simp add: keyword_query_def query_parts_def)

lemma keyword_query_ValueError:
  "keyword_query ttl au ab cat af sd ed = Inl e \<Longrightarrow>
     e = ValueError ''At least one search criterion (title, author, etc.) must be provided.''"
  by (auto simp: keyword_query_def Let_def split: if_splits)

text \<open>
  C4. The claim asks for a validation error whenever both dates are given and one of them
  is not of the form YYYY-MM-DD. The builder run on the title \<open>a\<close> with the dates
  \<open>01/02/2023\<close> and \<open>tomorrow\<close> returns a query whose date clause is made of these two
  strings.
\<close>

theorem keyword_query_malformed_dates:
  "keyword_query (Some ''a'') None None None None (Some ''01/02/2023'') (Some ''tomorrow'')
     = Inr (''ti:'' @ [dquote] @ ''a'' @ [dquote]
            @ '' AND submittedDate:[01/02/20230000 TO tomorrow2359]'')"
  by (simp add: keyword_query_def query_parts_def)

text \<open>
  C6. The claim asks for a validation error whenever title, author, abstract, category and
  all-fields are all empty or absent. The builder run with none of the five and with the
  dates \<open>2023-01-01\<close> and \<open>2023-01-31\<close> returns the query made of the date clause alone.
\<close>

theorem keyword_query_dates_only:
  "keyword_query None None None None None (Some ''2023-01-01'') (Some ''2023-01-31'')
     = Inr ''submittedDate:[202301010000 TO 202301312359]''"
  by (simp add: keyword_query_def query_parts_def)

section \<open>Properties of the two search operations\<close>

lemma str_less_Nil [simp]: "str_less e [] = False"
  by (cases e) auto

text \<open>
  C7. Either search operation raises a ValueError, and so issues no request, when the page
  size is below 1 or above 15, and accepts the page size 15; the keyword operation passes
  \<open>(page - 1) * page_size\<close> as start index and raises when it is negative; the semantic
  operation raises for a query that is empty once stripped, for a page below 1, and for a
  start time that compares greater than the end time when both are given (as non-empty
  strings, which is how the code tests that they are given).
\<close>

theorem search_validation:
  "(page_size < 1 \<or> 15 < page_size \<longrightarrow>
      (\<exists>m. ArxivClient_search q page_size start sb so = Inl (ValueError m))
    \<and> (\<exists>m. search_keyword True page page_size sb so ttl au ab cat sd ed af = Inl (ValueError m))
    \<and> (\<exists>m. SemanticSearchClient_search q page page_size rw cats st et = Inl (ValueError m)))
   \<and> (0 \<le> start1 \<longrightarrow>
        ArxivClient_search q 15 start1 sb so =
          Inr \<lparr> search_query = q, start_param = start1, max_results_param = 15,
                sortBy = sb, sortOrder = so \<rparr>)
   \<and> (keyword_query ttl1 au1 ab1 cat1 af1 sd1 ed1 = Inr kq \<and> 1 \<le> page1 \<longrightarrow>
        search_keyword True page1 15 sb so ttl1 au1 ab1 cat1 sd1 ed1 af1 =
          Inr \<lparr> search_query = kq, start_param = (page1 - 1) * 15, max_results_param = 15,
                sortBy = sb, sortOrder = so \<rparr>)
   \<and> (strip q1 \<noteq> [] \<and> 1 \<le> page1 \<and> \<not> start_after_end st1 et1 \<longrightarrow>
        SemanticSearchClient_search q1 page1 15 rw cats st1 et1 =
          Inr \<lparr> payload_query = q1, payload_page = page1, payload_page_size = 15,
                payload_search_by_paper = False, payload_use_rewrite = rw,
                payload_categories = cats, payload_start_time = st1,
                payload_end_time = et1 \<rparr>)
   \<and> (start2 < 0 \<longrightarrow> (\<exists>m. ArxivClient_search q page_size2 start2 sb so = Inl (ValueError m)))
   \<and> (keyword_query ttl1 au1 ab1 cat1 af1 sd1 ed1 = Inr kq \<longrightarrow>
        search_keyword True page2 page_size2 sb so ttl1 au1 ab1 cat1 sd1 ed1 af1 =
          ArxivClient_search kq page_size2 ((page2 - 1) * page_size2) sb so)
   \<and> (keyword_query ttl1 au1 ab1 cat1 af1 sd1 ed1 = Inr kq \<and> (page2 - 1) * page_size2 < 0 \<longrightarrow>
        (\<exists>m. search_keyword True page2 page_size2 sb so ttl1 au1 ab1 cat1 sd1 ed1 af1
               = Inl (ValueError m)))
   \<and> (strip q3 = [] \<or> page3 < 1
        \<or> (st3 = Some s \<and> et3 = Some e \<and> e \<noteq> [] \<and> str_less e s) \<longrightarrow>
        (\<exists>m. SemanticSearchClient_search q3 page3 page_size3 rw cats st3 et3
               = Inl (ValueError m)))"
proof -
  have kw: "\<exists>m. search_keyword True pg ps sb so t a b c d1 d2 f = Inl (ValueError m)"
    if "ps < 1 \<or> 15 < ps \<or> (pg - 1) * ps < 0" for pg ps t a b c d1 d2 f
  proof (cases "keyword_query t a b c f d1 d2")
    case (Inl err)
    then show ?thesis
      using keyword_query_ValueError [OF Inl] by (simp add: search_keyword_def)
  next
    case (Inr query)
    then show ?thesis
      using that by (auto simp: search_keyword_def ArxivClient_search_def)
  qed
  have sem: "start_after_end (Some s) (Some e)" if "e \<noteq> []" "str_less e s"
    using that by (cases s) auto
  show ?thesis
    using kw [of page_size page] kw [of page_size2 page2] sem
    by (auto simp: ArxivClient_search_def SemanticSearchClient_search_def search_keyword_def)
qed

theorem search_validation_witness:
  "(\<exists>m. ArxivClient_search ''all:x'' 16 0 ''relevance'' ''ascending'' = Inl (ValueError m))
   \<and> (\<exists>m. search_keyword True 1 16 ''relevance'' ''ascending''
            (Some ''x'') None None None None None None = Inl (ValueError m))
   \<and> (\<exists>m. SemanticSearchClient_search ''all:x'' 1 16 False None None None
            = Inl (ValueError m))
   \<and> (\<exists>r. ArxivClient_search ''all:x'' 15 0 ''relevance'' ''ascending'' = Inr r)
   \<and> (\<exists>r. search_keyword True 2 15 ''relevance'' ''ascending''
            (Some ''x'') None None None None None None = Inr r)
   \<and> (\<exists>r. SemanticSearchClient_search ''graphs'' 2 15 False None None None = Inr r)
   \<and> (\<exists>m. ArxivClient_search ''all:x'' 10 (- 10) ''relevance'' ''ascending''
            = Inl (ValueError m))
   \<and> (\<exists>m. search_keyword True 0 10 ''relevance'' ''ascending''
            (Some ''x'') None None None None None None = Inl (ValueError m))
   \<and> (\<exists>m. SemanticSearchClient_search ''graphs'' 1 10 False None
            (Some ''2023-02-01'') (Some ''2023-01-01'') = Inl (ValueError m))"
proof -
  have kq: "keyword_query (Some ''x'') None None None None None None
              = Inr (''ti:'' @ [dquote] @ ''x'' @ [dquote])"
    by (simp add: keyword_query_def query_parts_def)
  have ne: "strip ''graphs'' \<noteq> []"
    by (simp add: strip_def isspace_def)
  have lt: "str_less ''2023-01-01'' ''2023-02-01''"
    by simp
  from search_validation [of 16 "''all:x''" 0 "''relevance''" "''ascending''" 1
      "Some ''x''" None None None None None None False None None None
      0 "Some ''x''" None None None None None None "''ti:'' @ [dquote] @ ''x'' @ [dquote]"
      2 "''graphs''" None None "- 10" 10 0 "''graphs''" 1 "Some ''2023-02-01''"
      "''2023-02-01''" "Some ''2023-01-01''" "''2023-01-01''" 10]
    kq ne lt
  show ?thesis by auto metis
qed

text \<open>
  Without any clause the keyword operation raises the error about the missing criterion
  whatever the page and the page size are: the query is built before the pagination is
  looked at.
\<close>

lemma search_keyword_no_clause:
  assumes "\<not> truthy ttl" "\<not> truthy au" "\<not> truthy ab" "\<not> truthy cat" "\<not> truthy af"
    and "\<not> (truthy sd \<and> truthy ed)"
  shows "search_keyword True page page_size sb so ttl au ab cat sd ed af =
           Inl (ValueError ''At least one search criterion (title, author, etc.) must be provided.'')"
  using keyword_query_no_clause [OF assms] by (simp add: search_keyword_def)

text \<open>
  C10. The claim asks for the error about the missing criterion whenever the five search
  fields are empty or absent and the page size is out of range. The keyword operation run
  with none of the five, both dates and the page size 16 raises the pagination error.
\<close>

theorem search_keyword_dates_only_page_size:
  "search_keyword True 1 16 ''submittedDate'' ''descending'' None None None None
       (Some ''2023-01-01'') (Some ''2023-01-31'') None
     = Inl (ValueError ''Number of results per page must be between 1 and 15'')"
  by (simp add: search_keyword_def keyword_query_def query_parts_def ArxivClient_search_def)

section \<open>Properties of the category table\<close>

lemma major_list:
  "remdups (map (\<lambda>(code, desc). hd (split_chr (CHR ''.'') code)) ARXIV_CATEGORIES) =
     [''cs'', ''econ'', ''eess'', ''math'', ''astro-ph'', ''cond-mat'', ''gr-qc'',
       ''hep-ex'', ''hep-lat'', ''hep-ph'', ''hep-th'', ''math-ph'', ''nlin'',
       ''nucl-ex'', ''nucl-th'', ''physics'', ''q-bio'', ''q-fin'', ''quant-ph'',
       ''stat'']"
  by code_simp

lemma ARXIV_MAJOR_CATEGORIES_eq:
  "ARXIV_MAJOR_CATEGORIES =
     set [''cs'', ''econ'', ''eess'', ''math'', ''astro-ph'', ''cond-mat'', ''gr-qc'',
       ''hep-ex'', ''hep-lat'', ''hep-ph'', ''hep-th'', ''math-ph'', ''nlin'',
       ''nucl-ex'', ''nucl-th'', ''physics'', ''q-bio'', ''q-fin'', ''quant-ph'',
       ''stat'']"
proof -
  have "ARXIV_MAJOR_CATEGORIES =
          set (remdups (map (\<lambda>(code, desc). hd (split_chr (CHR ''.'') code)) ARXIV_CATEGORIES))"
    by (simp add: ARXIV_MAJOR_CATEGORIES_def)
  then show ?thesis
    by (simp only: major_list)
qed

lemma lower_codes:
  "map (\<lambda>(code, desc). lower code) ARXIV_CATEGORIES =
     [''cs.ai'', ''cs.ar'', ''cs.cc'', ''cs.ce'', ''cs.cg'', ''cs.cl'', ''cs.cr'',
       ''cs.cv'', ''cs.cy'', ''cs.db'', ''cs.dc'', ''cs.dl'', ''cs.dm'', ''cs.ds'',
       ''cs.et'', ''cs.fl'', ''cs.gl'', ''cs.gr'', ''cs.gt'', ''cs.hc'', ''cs.ir'',
       ''cs.it'', ''cs.lg'', ''cs.lo'', ''cs.ma'', ''cs.mm'', ''cs.ms'', ''cs.na'',
       ''cs.ne'', ''cs.ni'', ''cs.oh'', ''cs.os'', ''cs.pf'', ''cs.pl'', ''cs.ro'',
       ''cs.sc'', ''cs.sd'', ''cs.se'', ''cs.si'', ''cs.sy'', ''econ.em'', ''eess.as'',
       ''eess.iv'', ''eess.sp'', ''math.ac'', ''math.ag'', ''math.ap'', ''math.at'',
       ''math.ca'', ''math.co'', ''math.ct'', ''math.cv'', ''math.dg'', ''math.ds'',
       ''math.fa'', ''math.gm'', ''math.gn'', ''math.gr'', ''math.gt'', ''math.ho'',
       ''math.it'', ''math.kt'', ''math.lo'', ''math.mg'', ''math.mp'', ''math.na'',
       ''math.nt'', ''math.oa'', ''math.oc'', ''math.pr'', ''math.qa'', ''math.ra'',
       ''math.rt'', ''math.sg'', ''math.sp'', ''math.st'', ''astro-ph.co'',
       ''astro-ph.ep'', ''astro-ph.ga'', ''astro-ph.he'', ''astro-ph.im'',
       ''astro-ph.sr'', ''cond-mat.dis-nn'', ''cond-mat.mes-hall'',
       ''cond-mat.mtrl-sci'', ''cond-mat.other'', ''cond-mat.quant-gas'',
       ''cond-mat.soft'', ''cond-mat.stat-mech'', ''cond-mat.str-el'',
       ''cond-mat.supr-con'', ''gr-qc'', ''hep-ex'', ''hep-lat'', ''hep-ph'',
       ''hep-th'', ''math-ph'', ''nlin.ao'', ''nlin.cd'', ''nlin.cg'', ''nlin.ps'',
       ''nlin.si'', ''nucl-ex'', ''nucl-th'', ''physics.acc-ph'', ''physics.ao-ph'',
       ''physics.app-ph'', ''physics.atm-clus'', ''physics.atom-ph'',
       ''physics.bio-ph'', ''physics.chem-ph'', ''physics.class-ph'',
       ''physics.comp-ph'', ''physics.data-an'', ''physics.ed-ph'',
       ''physics.flu-dyn'', ''physics.gen-ph'', ''physics.geo-ph'',
       ''physics.hist-ph'', ''physics.ins-det'', ''physics.med-ph'',
       ''physics.optics'', ''physics.plasm-ph'', ''physics.pop-ph'',
       ''physics.soc-ph'', ''physics.space-ph'', ''q-bio.bm'', ''q-bio.cb'',
       ''q-bio.gn'', ''q-bio.mn'', ''q-bio.nc'', ''q-bio.ot'', ''q-bio.pe'',
       ''q-bio.qm'', ''q-bio.sc'', ''q-bio.to'', ''q-fin.cp'', ''q-fin.ec'',
       ''q-fin.gn'', ''q-fin.mf'', ''q-fin.pm'', ''q-fin.pr'', ''q-fin.rm'',
       ''q-fin.st'', ''q-fin.tr'', ''quant-ph'', ''stat.ap'', ''stat.co'', ''stat.me'',
       ''stat.ml'', ''stat.ot'', ''stat.th'']"
  by code_simp

text \<open>
  For every major category but \<open>math\<close>, a lower-cased code of the table that starts with
  the major category either starts with the major category and a dot or is the major
  category itself.
\<close>

lemma prefix_is_major:
  "\<forall>c \<in> set (map (\<lambda>(code, desc). lower code) ARXIV_CATEGORIES).
     \<forall>M \<in> ARXIV_MAJOR_CATEGORIES - {''math''}.
       startswith c M \<longleftrightarrow> startswith c (M @ ''.'') \<or> c = M"
  unfolding lower_codes ARXIV_MAJOR_CATEGORIES_eq by code_simp

lemma get_categories_no_filter:
  "get_categories None = ARXIV_CATEGORIES \<and> get_categories (Some []) = ARXIV_CATEGORIES"
  by (simp add: get_categories_def)

lemma get_categories_unknown:
  assumes "lower m \<notin> ARXIV_MAJOR_CATEGORIES" and "m \<noteq> []"
  shows "get_categories (Some m) = []"
  using assms by (simp add: get_categories_def)

lemma get_categories_zz: "get_categories (Some ''zz'') = []"
proof -
  have "lower ''zz'' = ''zz''"
    by code_simp
  then show ?thesis
    by (simp add: get_categories_def ARXIV_MAJOR_CATEGORIES_eq)
qed

text \<open>
  The filter of a known major category other than \<open>math\<close> gives exactly the entries whose
  code, in lower case, starts with the filter and a dot or equals the filter.
\<close>

lemma get_categories_known_major:
  assumes "m \<noteq> []" and "lower m \<in> ARXIV_MAJOR_CATEGORIES" and "lower m \<noteq> ''math''"
  shows "get_categories (Some m) =
           filter (\<lambda>(code, desc). startswith (lower code) (lower m @ ''.'') \<or> lower code = lower m)
             ARXIV_CATEGORIES"
proof -
  have "startswith (lower code) (lower m) \<longleftrightarrow>
          startswith (lower code) (lower m @ ''.'') \<or> lower code = lower m"
    if "(code, desc) \<in> set ARXIV_CATEGORIES" for code desc
  proof -
    have "lower code \<in> set (map (\<lambda>(code, desc). lower code) ARXIV_CATEGORIES)"
      using that by force
    moreover have "lower m \<in> ARXIV_MAJOR_CATEGORIES - {''math''}"
      using assms(2,3) by simp
    ultimately show ?thesis
      using prefix_is_major by blast
  qed
  then have "filter (\<lambda>(code, desc). startswith (lower code) (lower m)) ARXIV_CATEGORIES =
             filter (\<lambda>(code, desc). startswith (lower code) (lower m @ ''.'') \<or> lower code = lower m)
               ARXIV_CATEGORIES"
    by (intro filter_cong) auto
  then show ?thesis
    using assms(1,2) by (simp add: get_categories_def Let_def)
qed

lemma get_categories_cs:
  "map_of (get_categories (Some ''cs'')) ''cs.AI'' = Some ''Artificial Intelligence''
   \<and> (\<forall>(code, desc) \<in> set (get_categories (Some ''cs'')). startswith (lower code) ''cs.'')"
proof -
  have l: "lower ''cs'' = ''cs''" "lower ''cs.AI'' = ''cs.ai''"
    by code_simp+
  have cs: "get_categories (Some ''cs'') =
          filter (\<lambda>(code, desc). startswith (lower code) ''cs.'' \<or> lower code = ''cs'')
            ARXIV_CATEGORIES"
    using get_categories_known_major [of "''cs''"] by (simp add: l ARXIV_MAJOR_CATEGORIES_eq)
  have "lower code \<noteq> ''cs''" if "(code, desc) \<in> set ARXIV_CATEGORIES" for code desc
  proof -
    have "lower code \<in> set (map (\<lambda>(code, desc). lower code) ARXIV_CATEGORIES)"
      using that by force
    then show ?thesis
      unfolding lower_codes by auto
  qed
  then have only: "\<forall>(code, desc) \<in> set (get_categories (Some ''cs'')). startswith (lower code) ''cs.''"
    unfolding cs by auto
  have "map_of ARXIV_CATEGORIES ''cs.AI'' = Some ''Artificial Intelligence''"
    by (simp add: ARXIV_CATEGORIES_def)
  then have "map_of (get_categories (Some ''cs'')) ''cs.AI'' = Some ''Artificial Intelligence''"
    unfolding cs by (rule map_of_filter_in) (simp add: l)
  with only show ?thesis
    by simp
qed

text \<open>
  C3. The claim asks, for a known major category, for exactly the entries whose code starts
  with the filter and a dot or equals the filter. \<open>math\<close> is a major category of the
  table, and its filter returns \<open>math-ph\<close> as well, which neither starts with \<open>math.\<close>
  nor is \<open>math\<close>.
\<close>

theorem get_categories_math:
  "''math'' \<in> ARXIV_MAJOR_CATEGORIES
   \<and> map_of (get_categories (Some ''math'')) ''math-ph'' = Some ''Mathematical Physics''
   \<and> \<not> startswith (lower ''math-ph'') (lower ''math'' @ ''.'')
   \<and> lower ''math-ph'' \<noteq> lower ''math''"
proof -
  have l: "lower ''math'' = ''math''" "lower ''math-ph'' = ''math-ph''"
    by code_simp+
  have "map_of ARXIV_CATEGORIES ''math-ph'' = Some ''Mathematical Physics''"
    by (simp add: ARXIV_CATEGORIES_def)
  then have "map_of (filter (\<lambda>(code, desc). startswith (lower code) ''math'') ARXIV_CATEGORIES)
               ''math-ph'' = Some ''Mathematical Physics''"
    by (rule map_of_filter_in) (simp add: l)
  then show ?thesis
    by (simp add: get_categories_def l ARXIV_MAJOR_CATEGORIES_eq)
qed

section \<open>Properties of the identifier normalizer\<close>

lemma isdigit_not_special:
  assumes "isdigit c"
  shows "c \<noteq> CHR ''v''" "c \<noteq> CHR ''.''" "c \<noteq> CHR ''p''" "c \<noteq> CHR ''h''"
  using assms by (auto simp: isdigit_def)

lemma digit_string_set:
  assumes "digit_string d"
  shows "CHR ''v'' \<notin> set d" "CHR ''.'' \<notin> set d" "CHR ''p'' \<notin> set d"
  using assms by (auto simp: digit_string_def list_all_iff dest: isdigit_not_special)

lemma digits1_append:
  assumes "digit_string d" and "r = [] \<or> \<not> isdigit (hd r)"
  shows "digits1 (d @ r) = Some (d, r)"
proof -
  have all: "\<And>x. x \<in> set d \<Longrightarrow> isdigit x"
    using assms(1) by (simp add: digit_string_def list_all_iff)
  have r: "takeWhile isdigit r = []" "dropWhile isdigit r = r"
    using assms(2) by (cases r; simp)+
  have "takeWhile isdigit (d @ r) = d" "dropWhile isdigit (d @ r) = r"
    using all r by (simp_all add: takeWhile_append2 dropWhile_append2)
  then show ?thesis
    using assms(1) by (simp add: digits1_def digit_string_def)
qed

lemma digits1_Some:
  assumes "digits1 s = Some (d, r)"
  shows "digit_string d" and "s = d @ r" and "r = [] \<or> \<not> isdigit (hd r)"
proof -
  from assms have d: "d = takeWhile isdigit s" and r: "r = dropWhile isdigit s"
    and ne: "takeWhile isdigit s \<noteq> []"
    by (auto simp: digits1_def split: if_splits)
  show "digit_string d"
    using ne by (auto simp: d digit_string_def list_all_iff dest: set_takeWhileD)
  show "s = d @ r"
    by (simp add: d r)
  show "r = [] \<or> \<not> isdigit (hd r)"
    unfolding r by (metis hd_dropWhile)
qed

lemma lit_Some: "lit c s = Some r \<longleftrightarrow> s = c # r"
  by (cases s) auto

lemma version_opt_cases:
  "version_opt s = [] \<or> (\<exists>d3. digit_string d3 \<and> version_opt s = CHR ''v'' # d3)"
  by (auto simp: version_opt_def split: option.splits dest: digits1_Some(1))

lemma match_id_Some:
  assumes "match_id s = Some g"
  shows "\<exists>d1 d2. digit_string d1 \<and> digit_string d2 \<and>
           (g = d1 @ ''.'' @ d2 \<or> (\<exists>d3. digit_string d3 \<and> g = d1 @ ''.'' @ d2 @ ''v'' @ d3))"
proof -
  from assms obtain d1 r1 r2 d2 r3 where
    1: "digits1 s = Some (d1, r1)" and 2: "digits1 r2 = Some (d2, r3)"
    and g: "g = d1 @ ''.'' @ d2 @ version_opt r3"
    by (auto simp: match_id_def split: option.split_asm)
  from version_opt_cases [of r3] digits1_Some(1) [OF 1] digits1_Some(1) [OF 2] g
  show ?thesis
    by auto
qed

lemma search_url_Some:
  assumes "search_url s = Some g"
  shows "\<exists>d1 d2. digit_string d1 \<and> digit_string d2 \<and>
           (g = d1 @ ''.'' @ d2 \<or> (\<exists>d3. digit_string d3 \<and> g = d1 @ ''.'' @ d2 @ ''v'' @ d3))"
  using assms
proof (induction s)
  case Nil
  then show ?case by simp
next
  case (Cons c cs)
  show ?case
  proof (cases "match_url (c # cs)")
    case None
    with Cons show ?thesis by simp
  next
    case (Some g')
    with Cons.prems have "g' = g" by simp
    with Some have "match_id (drop (length ''arxiv.org/abs/'') (c # cs)) = Some g"
      by (simp add: match_url_def split: if_splits)
    then show ?thesis by (rule match_id_Some)
  qed
qed

lemma replace_pdf_id:
  assumes "CHR ''p'' \<notin> set s"
  shows "replace ''.pdf'' [] s = s"
  using assms
proof (induction s)
  case Nil
  then show ?case by simp
next
  case (Cons c cs)
  have "\<not> startswith cs ''pdf''"
    using Cons.prems by (cases cs) auto
  with Cons show ?case by simp
qed

lemma hd_split_chr: "hd (split_chr c s) = takeWhile (\<lambda>x. x \<noteq> c) s"
  by (subst split_chr.simps) (simp split: list.splits)

lemma match_versioned_intro:
  assumes "digit_string d1" "digit_string d2" "digit_string d3"
  shows "match_versioned (d1 @ ''.'' @ d2 @ ''v'' @ d3)"
proof -
  have 1: "digits1 (d1 @ ''.'' @ d2 @ ''v'' @ d3) = Some (d1, ''.'' @ d2 @ ''v'' @ d3)"
    by (rule digits1_append [OF assms(1)]) (simp add: isdigit_def)
  have 2: "digits1 (d2 @ ''v'' @ d3) = Some (d2, ''v'' @ d3)"
    by (rule digits1_append [OF assms(2)]) (simp add: isdigit_def)
  have 3: "digits1 d3 = Some (d3, [])"
    using digits1_append [OF assms(3), of "[]"] by simp
  show ?thesis
    using 1 2 3 by (simp add: match_versioned_def at_end_def)
qed

lemma match_versioned_takeWhile:
  assumes "match_versioned s"
  shows "\<exists>d1 d2. digit_string d1 \<and> digit_string d2 \<and>
           takeWhile (\<lambda>x. x \<noteq> CHR ''v'') s = d1 @ ''.'' @ d2"
proof -
  from assms obtain d1 r1 where 1: "digits1 s = Some (d1, r1)"
    by (cases "digits1 s") (auto simp: match_versioned_def)
  with assms obtain r2 where l1: "lit (CHR ''.'') r1 = Some r2"
    by (cases "lit (CHR ''.'') r1") (auto simp: match_versioned_def)
  with 1 assms obtain d2 r3 where 2: "digits1 r2 = Some (d2, r3)"
    by (cases "digits1 r2") (auto simp: match_versioned_def)
  with 1 l1 assms obtain r4 where l2: "lit (CHR ''v'') r3 = Some r4"
    by (cases "lit (CHR ''v'') r3") (auto simp: match_versioned_def)
  have s: "s = (d1 @ ''.'' @ d2) @ CHR ''v'' # r4"
    using digits1_Some(2) [OF 1] digits1_Some(2) [OF 2] l1 l2 by (simp add: lit_Some)
  have d: "digit_string d1" "digit_string d2"
    using digits1_Some(1) [OF 1] digits1_Some(1) [OF 2] .
  have "CHR ''v'' \<notin> set (d1 @ ''.'' @ d2)"
    using digit_string_set(1) [OF d(1)] digit_string_set(1) [OF d(2)] by simp
  then have "takeWhile (\<lambda>x. x \<noteq> CHR ''v'') s = d1 @ ''.'' @ d2"
    unfolding s by (intro takeWhile_tail [THEN trans] ) (auto simp: takeWhile_eq_all_conv)
  with d show ?thesis by blast
qed

lemma digit_string_not_url:
  assumes "digit_string d"
  shows "\<not> startswith (d @ r) ''http://''" "\<not> startswith (d @ r) ''https://''"
proof -
  from assms obtain c cs where d: "d = c # cs" and c: "isdigit c"
    by (cases d) (auto simp: digit_string_def)
  show "\<not> startswith (d @ r) ''http://''" "\<not> startswith (d @ r) ''https://''"
    using isdigit_not_special(4) [OF c] by (simp_all add: d)
qed

lemma normalize_bare:
  assumes "digit_string d1" "digit_string d2"
  shows "normalize_arxiv_id (d1 @ ''.'' @ d2) = d1 @ ''.'' @ d2"
  using digit_string_not_url [OF assms(1)] digit_string_set(1) [OF assms(1)]
    digit_string_set(1) [OF assms(2)]
  by (simp add: normalize_arxiv_id_def)

lemma takeWhile_bare:
  assumes "digit_string d1" "digit_string d2"
  shows "takeWhile (\<lambda>x. x \<noteq> CHR ''v'') (d1 @ ''.'' @ d2 @ ''v'' @ d3) = d1 @ ''.'' @ d2"
proof -
  have "CHR ''v'' \<notin> set (d1 @ ''.'' @ d2)"
    using digit_string_set(1) [OF assms(1)] digit_string_set(1) [OF assms(2)] by simp
  then have "takeWhile (\<lambda>x. x \<noteq> CHR ''v'') ((d1 @ ''.'' @ d2) @ CHR ''v'' # d3) = d1 @ ''.'' @ d2"
    by (intro takeWhile_tail [THEN trans]) (auto simp: takeWhile_eq_all_conv)
  then show ?thesis by simp
qed

lemma normalize_versioned:
  assumes "digit_string d1" "digit_string d2" "digit_string d3"
  shows "normalize_arxiv_id (d1 @ ''.'' @ d2 @ ''v'' @ d3) = d1 @ ''.'' @ d2"
  using digit_string_not_url [OF assms(1)] match_versioned_intro [OF assms]
    takeWhile_bare [OF assms(1,2)]
  by (simp add: normalize_arxiv_id_def hd_split_chr)

text \<open>The normalizer returns its argument or a bare identifier.\<close>

lemma normalize_result:
  "normalize_arxiv_id x = x
   \<or> (\<exists>d1 d2. digit_string d1 \<and> digit_string d2 \<and> normalize_arxiv_id x = d1 @ ''.'' @ d2)"
proof -
  define a where "a = (if startswith x ''http://'' \<or> startswith x ''https://''
               then (case search_url x of Some g \<Rightarrow> replace ''.pdf'' [] g | None \<Rightarrow> x)
               else x)"
  have n: "normalize_arxiv_id x =
             (if CHR ''v'' \<in> set a \<and> match_versioned a then takeWhile (\<lambda>c. c \<noteq> CHR ''v'') a else a)"
    by (simp add: normalize_arxiv_id_def a_def hd_split_chr Let_def)
  have a: "a = x \<or> (\<exists>d1 d2. digit_string d1 \<and> digit_string d2 \<and>
            (a = d1 @ ''.'' @ d2 \<or> (\<exists>d3. digit_string d3 \<and> a = d1 @ ''.'' @ d2 @ ''v'' @ d3)))"
  proof (cases "(startswith x ''http://'' \<or> startswith x ''https://'') \<and> search_url x \<noteq> None")
    case False
    then show ?thesis by (auto simp: a_def)
  next
    case True
    then obtain g where g: "search_url x = Some g" by auto
    from search_url_Some [OF g] obtain d1 d2 where d: "digit_string d1" "digit_string d2"
      and g': "g = d1 @ ''.'' @ d2 \<or> (\<exists>d3. digit_string d3 \<and> g = d1 @ ''.'' @ d2 @ ''v'' @ d3)"
      by blast
    have "CHR ''p'' \<notin> set g"
      using g' digit_string_set(3) d by auto
    then have "a = g"
      using True g by (simp add: a_def replace_pdf_id)
    with d g' show ?thesis by blast
  qed
  show ?thesis
  proof (cases "CHR ''v'' \<in> set a \<and> match_versioned a")
    case True
    with match_versioned_takeWhile [of a] n show ?thesis by auto
  next
    case False
    then have na: "normalize_arxiv_id x = a" by (auto simp: n)
    from a show ?thesis
    proof (elim disjE exE conjE)
      assume "a = x"
      with na show ?thesis by simp
    next
      fix d1 d2 assume "digit_string d1" "digit_string d2" "a = d1 @ ''.'' @ d2"
      with na show ?thesis by auto
    next
      fix d1 d2 d3
      assume d: "digit_string d1" "digit_string d2" "digit_string d3"
        and "a = d1 @ ''.'' @ d2 @ ''v'' @ d3"
      with match_versioned_intro [OF d] False have False by simp
      then show ?thesis ..
    qed
  qed
qed

lemma search_url_standard:
  assumes "scheme \<in> {''http://'', ''https://''}" and "kind \<in> {''abs'', ''pdf''}"
  shows "match_id rest = Some g \<Longrightarrow>
           search_url (scheme @ ''arxiv.org/'' @ kind @ ''/'' @ rest) = Some g"
    and "startswith (scheme @ r) ''http://'' \<or> startswith (scheme @ r) ''https://''"
  using assms by (auto simp: match_url_def)

lemma match_id_spelling:
  assumes "digit_string d1" "digit_string d2"
    and "ver = [] \<or> (\<exists>d3. digit_string d3 \<and> ver = ''v'' @ d3)"
    and "ext \<in> {[], ''.pdf''}"
  shows "match_id (d1 @ ''.'' @ d2 @ ver @ ext) = Some (d1 @ ''.'' @ d2 @ ver)"
proof -
  have 1: "digits1 (d1 @ ''.'' @ d2 @ ver @ ext) = Some (d1, ''.'' @ d2 @ ver @ ext)"
    by (rule digits1_append [OF assms(1)]) (simp add: isdigit_def)
  have 2: "digits1 (d2 @ ver @ ext) = Some (d2, ver @ ext)"
    by (rule digits1_append [OF assms(2)]) (use assms(3,4) in \<open>auto simp: isdigit_def\<close>)
  have 3: "version_opt (ver @ ext) = ver"
  proof (cases "ver = []")
    case True
    with assms(4) show ?thesis by (auto simp: version_opt_def)
  next
    case False
    with assms(3) obtain d3 where d3: "digit_string d3" and ver: "ver = ''v'' @ d3" by blast
    have "digits1 (d3 @ ext) = Some (d3, ext)"
      by (rule digits1_append [OF d3]) (use assms(4) in \<open>auto simp: isdigit_def\<close>)
    then show ?thesis by (simp add: version_opt_def ver)
  qed
  show ?thesis
    using 1 2 3 by (simp add: match_id_def)
qed

lemma normalize_url:
  assumes "digit_string d1" "digit_string d2"
    and "ver = [] \<or> (\<exists>d3. digit_string d3 \<and> ver = ''v'' @ d3)"
    and "scheme \<in> {''http://'', ''https://''}" and "kind \<in> {''abs'', ''pdf''}"
    and "ext \<in> {[], ''.pdf''}"
  shows "normalize_arxiv_id (scheme @ ''arxiv.org/'' @ kind @ ''/'' @ d1 @ ''.'' @ d2 @ ver @ ext)
           = d1 @ ''.'' @ d2"
proof -
  let ?x = "scheme @ ''arxiv.org/'' @ kind @ ''/'' @ d1 @ ''.'' @ d2 @ ver @ ext"
  let ?g = "d1 @ ''.'' @ d2 @ ver"
  have s: "search_url ?x = Some ?g"
    by (rule search_url_standard(1) [OF assms(4,5) match_id_spelling [OF assms(1,2,3,6)]])
  have u: "startswith ?x ''http://'' \<or> startswith ?x ''https://''"
    by (rule search_url_standard(2) [OF assms(4,5)])
  have "CHR ''p'' \<notin> set ?g"
    using assms(3) digit_string_set(3) assms(1,2) by auto
  then have r: "replace ''.pdf'' [] ?g = ?g"
    by (rule replace_pdf_id)
  show ?thesis
  proof (cases "ver = []")
    case True
    then have "CHR ''v'' \<notin> set ?g"
      using digit_string_set(1) assms(1,2) by auto
    with u s r True show ?thesis
      by (simp add: normalize_arxiv_id_def)
  next
    case False
    with assms(3) obtain d3 where d3: "digit_string d3" and ver: "ver = ''v'' @ d3" by blast
    have "match_versioned ?g" "takeWhile (\<lambda>x. x \<noteq> CHR ''v'') ?g = d1 @ ''.'' @ d2"
      using match_versioned_intro [OF assms(1,2) d3] takeWhile_bare [OF assms(1,2)]
      by (simp_all add: ver)
    with u s r show ?thesis
      by (simp add: normalize_arxiv_id_def hd_split_chr ver)
  qed
qed

lemma startswith_iff: "startswith s p \<longleftrightarrow> (\<exists>r. s = p @ r)"
  by (induction s p rule: startswith.induct) auto

lemma digit_string_hd:
  assumes "digit_string d"
  shows "isdigit (hd (d @ r))"
  using assms by (cases d) (auto simp: digit_string_def)

text \<open>The strings that the pattern for a versioned identifier matches.\<close>

lemma match_versioned_iff:
  "match_versioned x \<longleftrightarrow>
     (\<exists>d1 d2 d3 e. digit_string d1 \<and> digit_string d2 \<and> digit_string d3
        \<and> (e = [] \<or> e = [CHR 0x0A]) \<and> x = d1 @ ''.'' @ d2 @ ''v'' @ d3 @ e)"
proof
  assume mv: "match_versioned x"
  then obtain d1 r1 where 1: "digits1 x = Some (d1, r1)"
    by (cases "digits1 x") (auto simp: match_versioned_def)
  with mv obtain r2 where l1: "lit (CHR ''.'') r1 = Some r2"
    by (cases "lit (CHR ''.'') r1") (auto simp: match_versioned_def)
  with 1 mv obtain d2 r3 where 2: "digits1 r2 = Some (d2, r3)"
    by (cases "digits1 r2") (auto simp: match_versioned_def)
  with 1 l1 mv obtain r4 where l2: "lit (CHR ''v'') r3 = Some r4"
    by (cases "lit (CHR ''v'') r3") (auto simp: match_versioned_def)
  with 1 l1 2 mv obtain d3 r5 where 3: "digits1 r4 = Some (d3, r5)"
    by (cases "digits1 r4") (auto simp: match_versioned_def)
  with 1 l1 2 l2 mv have e: "r5 = [] \<or> r5 = [CHR 0x0A]"
    by (simp add: match_versioned_def at_end_def)
  have "x = d1 @ ''.'' @ d2 @ ''v'' @ d3 @ r5"
    using digits1_Some(2) [OF 1] digits1_Some(2) [OF 2] digits1_Some(2) [OF 3] l1 l2
    by (simp add: lit_Some)
  with digits1_Some(1) [OF 1] digits1_Some(1) [OF 2] digits1_Some(1) [OF 3] e
  show "\<exists>d1 d2 d3 e. digit_string d1 \<and> digit_string d2 \<and> digit_string d3
        \<and> (e = [] \<or> e = [CHR 0x0A]) \<and> x = d1 @ ''.'' @ d2 @ ''v'' @ d3 @ e"
    by blast
next
  assume "\<exists>d1 d2 d3 e. digit_string d1 \<and> digit_string d2 \<and> digit_string d3
        \<and> (e = [] \<or> e = [CHR 0x0A]) \<and> x = d1 @ ''.'' @ d2 @ ''v'' @ d3 @ e"
  then obtain d1 d2 d3 e where d: "digit_string d1" "digit_string d2" "digit_string d3"
    and e: "e = [] \<or> e = [CHR 0x0A]" and x: "x = d1 @ ''.'' @ d2 @ ''v'' @ d3 @ e"
    by blast
  have 1: "digits1 (d1 @ ''.'' @ d2 @ ''v'' @ d3 @ e) = Some (d1, ''.'' @ d2 @ ''v'' @ d3 @ e)"
    by (rule digits1_append [OF d(1)]) (simp add: isdigit_def)
  have 2: "digits1 (d2 @ ''v'' @ d3 @ e) = Some (d2, ''v'' @ d3 @ e)"
    by (rule digits1_append [OF d(2)]) (simp add: isdigit_def)
  have 3: "digits1 (d3 @ e) = Some (d3, e)"
    by (rule digits1_append [OF d(3)]) (use e in \<open>auto simp: isdigit_def\<close>)
  show "match_versioned x"
    using 1 2 3 e by (simp add: x match_versioned_def at_end_def)
qed

text \<open>Where the pattern for a link is found, the input has the shape the pattern describes.\<close>

lemma match_id_shape:
  assumes "match_id s = Some g"
  shows "\<exists>d1 d2 r. digit_string d1 \<and> digit_string d2 \<and> s = d1 @ ''.'' @ d2 @ r"
proof -
  from assms obtain d1 r1 where 1: "digits1 s = Some (d1, r1)"
    by (cases "digits1 s") (auto simp: match_id_def)
  with assms obtain r2 where l1: "lit (CHR ''.'') r1 = Some r2"
    by (cases "lit (CHR ''.'') r1") (auto simp: match_id_def)
  with 1 assms obtain d2 r3 where 2: "digits1 r2 = Some (d2, r3)"
    by (cases "digits1 r2") (auto simp: match_id_def)
  have "s = d1 @ ''.'' @ d2 @ r3"
    using digits1_Some(2) [OF 1] digits1_Some(2) [OF 2] l1 by (simp add: lit_Some)
  with digits1_Some(1) [OF 1] digits1_Some(1) [OF 2] show ?thesis
    by blast
qed

lemma search_url_shape:
  assumes "search_url x = Some g"
  shows "\<exists>pre kind d1 d2 r. kind \<in> {''abs'', ''pdf''} \<and> digit_string d1 \<and> digit_string d2
           \<and> x = pre @ ''arxiv.org/'' @ kind @ ''/'' @ d1 @ ''.'' @ d2 @ r"
  using assms
proof (induction x)
  case Nil
  then show ?case by simp
next
  case (Cons c cs)
  show ?case
  proof (cases "match_url (c # cs)")
    case None
    with Cons.prems have "search_url cs = Some g" by simp
    from Cons.IH [OF this] obtain pre kind d1 d2 r where
      "kind \<in> {''abs'', ''pdf''}" "digit_string d1" "digit_string d2"
      "cs = pre @ ''arxiv.org/'' @ kind @ ''/'' @ d1 @ ''.'' @ d2 @ r"
      by blast
    then have "kind \<in> {''abs'', ''pdf''} \<and> digit_string d1 \<and> digit_string d2
        \<and> c # cs = (c # pre) @ ''arxiv.org/'' @ kind @ ''/'' @ d1 @ ''.'' @ d2 @ r"
      by simp
    then show ?thesis by blast
  next
    case (Some g')
    then have sw: "startswith (c # cs) ''arxiv.org/abs/'' \<or> startswith (c # cs) ''arxiv.org/pdf/''"
      and md: "match_id (drop (length ''arxiv.org/abs/'') (c # cs)) = Some g'"
      by (auto simp: match_url_def split: if_splits)
    from sw have "\<exists>kind s. kind \<in> {''abs'', ''pdf''} \<and> c # cs = ''arxiv.org/'' @ kind @ ''/'' @ s"
    proof
      assume "startswith (c # cs) ''arxiv.org/abs/''"
      then obtain s where "c # cs = ''arxiv.org/abs/'' @ s"
        unfolding startswith_iff by blast
      then have "''abs'' \<in> {''abs'', ''pdf''} \<and> c # cs = ''arxiv.org/'' @ ''abs'' @ ''/'' @ s"
        by simp
      then show ?thesis by blast
    next
      assume "startswith (c # cs) ''arxiv.org/pdf/''"
      then obtain s where "c # cs = ''arxiv.org/pdf/'' @ s"
        unfolding startswith_iff by blast
      then have "''pdf'' \<in> {''abs'', ''pdf''} \<and> c # cs = ''arxiv.org/'' @ ''pdf'' @ ''/'' @ s"
        by simp
      then show ?thesis by blast
    qed
    then obtain kind s where k: "kind \<in> {''abs'', ''pdf''}"
      and cs: "c # cs = ''arxiv.org/'' @ kind @ ''/'' @ s"
      by blast
    from k cs md have m: "match_id s = Some g'"
      by auto
    from match_id_shape [OF m] obtain d1 d2 r where
      "digit_string d1" "digit_string d2" "s = d1 @ ''.'' @ d2 @ r"
      by blast
    with k cs have "kind \<in> {''abs'', ''pdf''} \<and> digit_string d1 \<and> digit_string d2
        \<and> c # cs = [] @ ''arxiv.org/'' @ kind @ ''/'' @ d1 @ ''.'' @ d2 @ r"
      by simp
    then show ?thesis by blast
  qed
qed

text \<open>
  An input is returned as it is unless it is a link in which the pattern is found or a
  versioned identifier, alone or before one final newline.
\<close>

lemma normalize_unmatched:
  assumes "(\<not> (\<exists>r. x = ''http://'' @ r) \<and> \<not> (\<exists>r. x = ''https://'' @ r))
         \<or> \<not> (\<exists>pre kind d1 d2 r. kind \<in> {''abs'', ''pdf''} \<and> digit_string d1 \<and> digit_string d2
                \<and> x = pre @ ''arxiv.org/'' @ kind @ ''/'' @ d1 @ ''.'' @ d2 @ r)"
    and "\<not> (\<exists>d1 d2 d3 e. digit_string d1 \<and> digit_string d2 \<and> digit_string d3
                \<and> (e = [] \<or> e = [CHR 0x0A]) \<and> x = d1 @ ''.'' @ d2 @ ''v'' @ d3 @ e)"
  shows "normalize_arxiv_id x = x"
proof -
  have mv: "\<not> match_versioned x"
    using assms(2) by (simp only: match_versioned_iff not_False_eq_True)
  have "\<not> (startswith x ''http://'' \<or> startswith x ''https://'') \<or> search_url x = None"
  proof (cases "search_url x")
    case None
    then show ?thesis by simp
  next
    case (Some g)
    from search_url_shape [OF Some] assms(1) show ?thesis
      by (simp only: startswith_iff) blast
  qed
  with mv show ?thesis
    by (auto simp: normalize_arxiv_id_def)
qed

text \<open>
  With \<open>d1\<close>, \<open>d2\<close>, \<open>d3\<close> non-empty runs of digits, the normalizer maps the bare
  identifier \<open>d1.d2\<close>, the versioned identifier \<open>d1.d2vd3\<close> and the abs-page and PDF links
  of both (under \<open>http\<close> or \<open>https\<close>, with or without \<open>.pdf\<close> at the end) to \<open>d1.d2\<close>.
\<close>

lemma normalize_arxiv_id_spellings:
  assumes "digit_string d1" "digit_string d2" "digit_string d3"
    and "scheme \<in> {''http://'', ''https://''}" and "kind \<in> {''abs'', ''pdf''}"
    and "ext \<in> {[], ''.pdf''}"
  shows "normalize_arxiv_id (d1 @ ''.'' @ d2) = d1 @ ''.'' @ d2
       \<and> normalize_arxiv_id (d1 @ ''.'' @ d2 @ ''v'' @ d3) = d1 @ ''.'' @ d2
       \<and> normalize_arxiv_id (scheme @ ''arxiv.org/'' @ kind @ ''/'' @ d1 @ ''.'' @ d2 @ ext)
           = d1 @ ''.'' @ d2
       \<and> normalize_arxiv_id
             (scheme @ ''arxiv.org/'' @ kind @ ''/'' @ d1 @ ''.'' @ d2 @ ''v'' @ d3 @ ext)
           = d1 @ ''.'' @ d2"
proof -
  have plain: "normalize_arxiv_id (scheme @ ''arxiv.org/'' @ kind @ ''/'' @ d1 @ ''.'' @ d2 @ ext)
           = d1 @ ''.'' @ d2"
    using normalize_url [OF assms(1,2) _ assms(4,5,6), of "[]"] by simp
  have versioned: "normalize_arxiv_id
             (scheme @ ''arxiv.org/'' @ kind @ ''/'' @ d1 @ ''.'' @ d2 @ ''v'' @ d3 @ ext)
           = d1 @ ''.'' @ d2"
    using normalize_url [OF assms(1,2) _ assms(4,5,6), of "''v'' @ d3"] assms(3) by auto
  show ?thesis
    using normalize_bare [OF assms(1,2)] normalize_versioned [OF assms(1,2,3)] plain versioned
    by blast
qed

text \<open>Normalizing twice gives the same as normalizing once.\<close>

lemma normalize_arxiv_id_idempotent:
  "normalize_arxiv_id (normalize_arxiv_id x) = normalize_arxiv_id x"
  using normalize_result [of x] normalize_bare by auto

lemma normalize_arxiv_id_samples:
  "normalize_arxiv_id ''2201.00001'' = ''2201.00001''"
  "normalize_arxiv_id ''2201.00001v2'' = ''2201.00001''"
  "normalize_arxiv_id ''https://arxiv.org/abs/2201.00001'' = ''2201.00001''"
  "normalize_arxiv_id ''https://arxiv.org/pdf/2201.00001v2.pdf'' = ''2201.00001''"
  "normalize_arxiv_id ''not an id'' = ''not an id''"
  "normalize_arxiv_id ''2201.00001v2abc'' = ''2201.00001v2abc''"
  by code_simp+

text \<open>
  C5. The claim asks that an input which is none of the accepted spellings comes back
  unchanged. The versioned identifier \<open>2201.00001v2\<close> followed by a newline is none of
  them, since it ends in a character that is no digit; the normalizer cuts it to
  \<open>2201.00001\<close>, because \<open>$\<close> in its pattern also matches before a final newline.
\<close>

theorem normalize_arxiv_id_trailing_newline:
  "normalize_arxiv_id (''2201.00001v2'' @ [CHR 0x0A]) = ''2201.00001''
   \<and> last (''2201.00001v2'' @ [CHR 0x0A]) = CHR 0x0A \<and> \<not> isdigit (CHR 0x0A)"
  by code_simp

section \<open>Properties of the response parser\<close>

lemma parse_entries_append:
  "parse_entries (xs @ ys) = parse_entries xs @ parse_entries ys"
  by (induction xs) (auto split: sum.splits option.splits)

lemma parse_entries_skip:
  assumes "parse_entry e = Inr None \<or> (\<exists>err. parse_entry e = Inl err)"
  shows "parse_entries (es1 @ e # es2) = parse_entries es1 @ parse_entries es2"
  using assms by (auto simp: parse_entries_append)

text \<open>An entry without one of the required parts gives no paper and raises nothing.\<close>

lemma parse_entry_incomplete:
  assumes "\<not> truthy (safe_get_text (elem_find (atom ''id'') e))
         \<or> \<not> truthy (safe_get_text (elem_find (atom ''title'') e))
         \<or> \<not> truthy (safe_get_text (elem_find (atom ''summary'') e))
         \<or> \<not> truthy (safe_get_text (elem_find (atom ''published'') e))
         \<or> author_names e = [] \<or> category_terms e = []"
  shows "parse_entry e = Inr None"
proof -
  obtain i t s p where f:
    "safe_get_text (elem_find (atom ''id'') e) = i"
    "safe_get_text (elem_find (atom ''title'') e) = t"
    "safe_get_text (elem_find (atom ''summary'') e) = s"
    "safe_get_text (elem_find (atom ''published'') e) = p"
    by blast
  show ?thesis
    using assms unfolding parse_entry_def f
    by (cases i; cases t; cases s; cases p) auto
qed

text \<open>A complete entry gives a paper or raises the error of its timestamp.\<close>

lemma parse_entry_complete:
  assumes "safe_get_text (elem_find (atom ''id'') e) = Some i" "i \<noteq> []"
    and "safe_get_text (elem_find (atom ''title'') e) = Some t" "t \<noteq> []"
    and "safe_get_text (elem_find (atom ''summary'') e) = Some s" "s \<noteq> []"
    and "safe_get_text (elem_find (atom ''published'') e) = Some p" "p \<noteq> []"
    and "author_names e \<noteq> []" "category_terms e \<noteq> []"
  shows "parse_entry e =
           (case parse_datetime p of
              Inl err \<Rightarrow> Inl err
            | Inr date \<Rightarrow>
                Inr (Some (new_ArxivPaper (entry_id i) (strip t) (author_names e) (strip s)
                       (category_terms e) date
                       (safe_get_text (elem_find (arxiv ''comment'') e)) None None None)))"
  using assms by (simp add: parse_entry_def)

lemma parse_entry_cases:
  "parse_entry e = Inr None
   \<or> (\<exists>i t s p. safe_get_text (elem_find (atom ''id'') e) = Some i \<and> i \<noteq> []
         \<and> safe_get_text (elem_find (atom ''title'') e) = Some t \<and> t \<noteq> []
         \<and> safe_get_text (elem_find (atom ''summary'') e) = Some s \<and> s \<noteq> []
         \<and> safe_get_text (elem_find (atom ''published'') e) = Some p \<and> p \<noteq> []
         \<and> author_names e \<noteq> [] \<and> category_terms e \<noteq> [])"
proof (cases "\<not> truthy (safe_get_text (elem_find (atom ''id'') e))
         \<or> \<not> truthy (safe_get_text (elem_find (atom ''title'') e))
         \<or> \<not> truthy (safe_get_text (elem_find (atom ''summary'') e))
         \<or> \<not> truthy (safe_get_text (elem_find (atom ''published'') e))
         \<or> author_names e = [] \<or> category_terms e = []")
  case True
  then show ?thesis
    using parse_entry_incomplete by blast
next
  case False
  then have "truthy (safe_get_text (elem_find (atom ''id'') e))"
    "truthy (safe_get_text (elem_find (atom ''title'') e))"
    "truthy (safe_get_text (elem_find (atom ''summary'') e))"
    "truthy (safe_get_text (elem_find (atom ''published'') e))"
    "author_names e \<noteq> []" "category_terms e \<noteq> []"
    by auto
  then show ?thesis
    by (metis truthy.elims(2))
qed

text \<open>Once the total is read, the response parser returns the papers of the entries.\<close>

lemma parse_response_entries:
  assumes "safe_get_text (find (\<lambda>e. elem_tag e = opensearch ''totalResults'')
             (descendants doc)) = Some total_text"
    and "py_int total_text = Some n"
  shows "parse_response doc =
           Inr (parse_entries (filter (\<lambda>e. elem_tag e = atom ''entry'') (descendants doc)))"
  using assms by (simp add: parse_response_def)

lemma entry_id_takeWhile: "entry_id x = takeWhile (\<lambda>c. c \<noteq> CHR ''v'') (last (split_chr (CHR ''/'') x))"
  by (simp add: entry_id_def hd_split_chr)

lemma strip_version_suffix_versioned:
  assumes "digit_string d"
  shows "strip_version_suffix (b @ ''v'' @ d) = b"
proof -
  have all: "\<And>x. x \<in> set (rev d) \<Longrightarrow> isdigit x" and ne: "rev d \<noteq> []"
    using assms by (auto simp: digit_string_def list_all_iff)
  have v: "\<not> isdigit (CHR ''v'')"
    by (simp add: isdigit_def)
  have "takeWhile isdigit (rev d @ CHR ''v'' # rev b)
          = rev d @ takeWhile isdigit (CHR ''v'' # rev b)"
    by (rule takeWhile_append2) (rule all)
  moreover have "dropWhile isdigit (rev d @ CHR ''v'' # rev b)
          = dropWhile isdigit (CHR ''v'' # rev b)"
    by (rule dropWhile_append2) (rule all)
  ultimately have "takeWhile isdigit (rev d @ CHR ''v'' # rev b) = rev d"
    "dropWhile isdigit (rev d @ CHR ''v'' # rev b) = CHR ''v'' # rev b"
    using v by simp_all
  then show ?thesis
    using ne by (simp add: strip_version_suffix_def)
qed

text \<open>The facts about the sample documents that the statements below are run on.\<close>

lemma sample_entries_parsed:
  "parse_entry entry_ann = Inr (Some paper_ann)"
  "parse_entry entry_bob = Inr (Some paper_bob)"
  "parse_entry entry_no_author = Inr None"
  "parse_entry entry_bad_date = Inl (ValueError ''time data does not match format'')"
  by code_simp+

lemma sample_feeds:
  "safe_get_text (find (\<lambda>e. elem_tag e = opensearch ''totalResults'')
     (descendants (sample_feed (Some ''3'') [entry_ann, entry_no_author, entry_bob])))
     = Some ''3''"
  "filter (\<lambda>e. elem_tag e = atom ''entry'')
     (descendants (sample_feed (Some ''3'') [entry_ann, entry_no_author, entry_bob]))
     = [entry_ann] @ entry_no_author # [entry_bob]"
  "safe_get_text (find (\<lambda>e. elem_tag e = opensearch ''totalResults'')
     (descendants (sample_feed (Some ''2'') [entry_bad_date, entry_ann]))) = Some ''2''"
  "filter (\<lambda>e. elem_tag e = atom ''entry'')
     (descendants (sample_feed (Some ''2'') [entry_bad_date, entry_ann]))
     = [] @ entry_bad_date # [entry_ann]"
  "py_int ''3'' = Some 3" "py_int ''2'' = Some 2"
  "author_names entry_no_author = []"
  "safe_get_text (elem_find (atom ''published'') entry_bad_date) = Some ''yesterday''"
  "parse_datetime ''yesterday'' = Inl (ValueError ''time data does not match format'')"
  by code_simp+

text \<open>
  C1, as the code has it. When the document carries a total that \<open>int\<close> accepts, an entry
  that lacks the identifier, the title, the abstract or the timestamp (or has it empty),
  that names no author or that has no category term is left out, and the entries before and
  after it are parsed as if it were not there; with two more entries that both give a
  paper, the response has exactly these two papers. No entry makes the call fail.
\<close>

theorem parse_response_skips_incomplete_entry:
  assumes "safe_get_text (find (\<lambda>e. elem_tag e = opensearch ''totalResults'')
             (descendants doc)) = Some total_text"
    and "py_int total_text = Some n"
    and "filter (\<lambda>e. elem_tag e = atom ''entry'') (descendants doc) = es1 @ e # es2"
    and "\<not> truthy (safe_get_text (elem_find (atom ''id'') e))
         \<or> \<not> truthy (safe_get_text (elem_find (atom ''title'') e))
         \<or> \<not> truthy (safe_get_text (elem_find (atom ''summary'') e))
         \<or> \<not> truthy (safe_get_text (elem_find (atom ''published'') e))
         \<or> author_names e = [] \<or> category_terms e = []"
  shows "parse_entry e = Inr None
       \<and> parse_response doc = Inr (parse_entries es1 @ parse_entries es2)
       \<and> (es1 @ es2 = [x, y] \<and> parse_entry x = Inr (Some p) \<and> parse_entry y = Inr (Some q)
            \<longrightarrow> parse_response doc = Inr [p, q])"
proof -
  have skip: "parse_entry e = Inr None"
    by (rule parse_entry_incomplete [OF assms(4)])
  have resp: "parse_response doc = Inr (parse_entries es1 @ parse_entries es2)"
    using parse_response_entries [OF assms(1,2)] parse_entries_skip [of e es1 es2] skip
    by (simp add: assms(3))
  have "parse_entries es1 @ parse_entries es2 = [p, q]"
    if "es1 @ es2 = [x, y]" "parse_entry x = Inr (Some p)" "parse_entry y = Inr (Some q)"
  proof -
    have "parse_entries (es1 @ es2) = [p, q]"
      using that by simp
    then show ?thesis
      by (simp add: parse_entries_append)
  qed
  with skip resp show ?thesis
    by simp
qed

theorem parse_response_skips_incomplete_entry_witness:
  "author_names entry_no_author = []
   \<and> parse_response (sample_feed (Some ''3'') [entry_ann, entry_no_author, entry_bob])
       = Inr [paper_ann, paper_bob]"
proof -
  have bad: "\<not> truthy (safe_get_text (elem_find (atom ''id'') entry_no_author))
         \<or> \<not> truthy (safe_get_text (elem_find (atom ''title'') entry_no_author))
         \<or> \<not> truthy (safe_get_text (elem_find (atom ''summary'') entry_no_author))
         \<or> \<not> truthy (safe_get_text (elem_find (atom ''published'') entry_no_author))
         \<or> author_names entry_no_author = [] \<or> category_terms entry_no_author = []"
    using sample_feeds(7) by simp
  from parse_response_skips_incomplete_entry
    [OF sample_feeds(1) sample_feeds(5) sample_feeds(2) bad, of entry_ann entry_bob
      paper_ann paper_bob]
    sample_entries_parsed(1,2) sample_feeds(7)
  show ?thesis by simp
qed

text \<open>
  C1 as it is stated speaks of every well-formed document. The feed below has the three
  entries of the example, one of them without an author, and no total: the parser raises
  and returns no paper.
\<close>

theorem parse_response_without_total:
  "parse_response (sample_feed None [entry_ann, entry_no_author, entry_bob])
     = Inl (TypeError ''int() argument must be a string, a bytes-like object or a real number'')"
  by code_simp

text \<open>
  C2, as the code has it. On a document whose total \<open>int\<close> accepts, an entry whose
  timestamp is present but refused by \<open>_parse_datetime\<close> is skipped: the response holds
  the papers of the other entries and the call does not fail. When the entry is complete
  otherwise, its error is raised inside the loop, which catches it; when another part is
  missing, the entry gives no paper before the timestamp is looked at.
\<close>

theorem parse_response_skips_malformed_timestamp:
  assumes "safe_get_text (find (\<lambda>e. elem_tag e = opensearch ''totalResults'')
             (descendants doc)) = Some total_text"
    and "py_int total_text = Some n"
    and "filter (\<lambda>e. elem_tag e = atom ''entry'') (descendants doc) = es1 @ e # es2"
    and "safe_get_text (elem_find (atom ''published'') e) = Some ts"
    and "parse_datetime ts = Inl err"
  shows "parse_response doc = Inr (parse_entries es1 @ parse_entries es2)
       \<and> (ts \<noteq> [] \<and> truthy (safe_get_text (elem_find (atom ''id'') e))
            \<and> truthy (safe_get_text (elem_find (atom ''title'') e))
            \<and> truthy (safe_get_text (elem_find (atom ''summary'') e))
            \<and> author_names e \<noteq> [] \<and> category_terms e \<noteq> []
            \<longrightarrow> parse_entry e = Inl err)
       \<and> (ts = [] \<or> \<not> truthy (safe_get_text (elem_find (atom ''id'') e))
            \<or> \<not> truthy (safe_get_text (elem_find (atom ''title'') e))
            \<or> \<not> truthy (safe_get_text (elem_find (atom ''summary'') e))
            \<or> author_names e = [] \<or> category_terms e = []
            \<longrightarrow> parse_entry e = Inr None)"
proof -
  have raised: "parse_entry e = Inl err"
    if "ts \<noteq> []" "truthy (safe_get_text (elem_find (atom ''id'') e))"
      "truthy (safe_get_text (elem_find (atom ''title'') e))"
      "truthy (safe_get_text (elem_find (atom ''summary'') e))"
      "author_names e \<noteq> []" "category_terms e \<noteq> []"
  proof -
    from that(2,3,4) obtain i t s where c:
      "safe_get_text (elem_find (atom ''id'') e) = Some i" "i \<noteq> []"
      "safe_get_text (elem_find (atom ''title'') e) = Some t" "t \<noteq> []"
      "safe_get_text (elem_find (atom ''summary'') e) = Some s" "s \<noteq> []"
      by (metis truthy.elims(2))
    from parse_entry_complete [OF c assms(4) that(1,5,6)] assms(5) show ?thesis
      by simp
  qed
  have none: "parse_entry e = Inr None"
    if "ts = [] \<or> \<not> truthy (safe_get_text (elem_find (atom ''id'') e))
        \<or> \<not> truthy (safe_get_text (elem_find (atom ''title'') e))
        \<or> \<not> truthy (safe_get_text (elem_find (atom ''summary'') e))
        \<or> author_names e = [] \<or> category_terms e = []"
    using that assms(4) by (intro parse_entry_incomplete) auto
  have "parse_entry e = Inr None \<or> (\<exists>err. parse_entry e = Inl err)"
    using raised none by blast
  then have "parse_entries (es1 @ e # es2) = parse_entries es1 @ parse_entries es2"
    by (rule parse_entries_skip)
  with raised none parse_response_entries [OF assms(1,2)] show ?thesis
    by (simp add: assms(3))
qed

theorem parse_response_skips_malformed_timestamp_witness:
  "parse_datetime ''yesterday'' = Inl (ValueError ''time data does not match format'')
   \<and> parse_entry entry_bad_date = Inl (ValueError ''time data does not match format'')
   \<and> parse_response (sample_feed (Some ''2'') [entry_bad_date, entry_ann]) = Inr [paper_ann]
   \<and> parse_entry entry_bad_date_no_author = Inr None
   \<and> parse_response (sample_feed (Some ''2'') [entry_bad_date_no_author, entry_ann])
       = Inr [paper_ann]"
proof -
  have c: "''yesterday'' \<noteq> []"
    "truthy (safe_get_text (elem_find (atom ''id'') entry_bad_date))"
    "truthy (safe_get_text (elem_find (atom ''title'') entry_bad_date))"
    "truthy (safe_get_text (elem_find (atom ''summary'') entry_bad_date))"
    "author_names entry_bad_date \<noteq> []" "category_terms entry_bad_date \<noteq> []"
    by code_simp+
  have i: "safe_get_text (find (\<lambda>e. elem_tag e = opensearch ''totalResults'')
       (descendants (sample_feed (Some ''2'') [entry_bad_date_no_author, entry_ann]))) = Some ''2''"
    "filter (\<lambda>e. elem_tag e = atom ''entry'')
       (descendants (sample_feed (Some ''2'') [entry_bad_date_no_author, entry_ann]))
       = [] @ entry_bad_date_no_author # [entry_ann]"
    "safe_get_text (elem_find (atom ''published'') entry_bad_date_no_author) = Some ''yesterday''"
    "author_names entry_bad_date_no_author = []"
    by code_simp+
  from parse_response_skips_malformed_timestamp
    [OF sample_feeds(3) sample_feeds(6) sample_feeds(4) sample_feeds(8) sample_feeds(9)]
    c sample_entries_parsed(1) sample_feeds(9)
  have 1: "parse_entry entry_bad_date = Inl (ValueError ''time data does not match format'')
     \<and> parse_response (sample_feed (Some ''2'') [entry_bad_date, entry_ann]) = Inr [paper_ann]"
    by simp
  from parse_response_skips_malformed_timestamp
    [OF i(1) sample_feeds(6) i(2) i(3) sample_feeds(9)] i(4) sample_entries_parsed(1)
  have 2: "parse_entry entry_bad_date_no_author = Inr None
     \<and> parse_response (sample_feed (Some ''2'') [entry_bad_date_no_author, entry_ann])
         = Inr [paper_ann]"
    by simp
  from 1 2 sample_feeds(9) show ?thesis
    by blast
qed

text \<open>
  C2 as it is stated asks for the whole call to fail. The first entry of the feed below has
  the timestamp \<open>yesterday\<close>, which makes the entry raise; the call returns the paper of
  the second entry.
\<close>

theorem parse_response_malformed_timestamp_not_fatal:
  "parse_entry entry_bad_date = Inl (ValueError ''time data does not match format'')
   \<and> parse_response (sample_feed (Some ''2'') [entry_bad_date, entry_ann]) = Inr [paper_ann]"
  by code_simp

text \<open>
  The identifier of a parsed paper is the last segment of the identifier text up to its
  first \<open>v\<close>. It is the whole segment when the segment has no \<open>v\<close>, and it is \<open>b\<close> when
  the segment is \<open>b\<close>, \<open>v\<close>, digits with no \<open>v\<close> in \<open>b\<close>: in these two cases the code
  agrees with the specification's wording.
\<close>

lemma parse_entry_identifier:
  assumes "parse_entry e = Inr (Some p)"
  shows "\<exists>id_text. safe_get_text (elem_find (atom ''id'') e) = Some id_text
       \<and> arxiv_id p = takeWhile (\<lambda>c. c \<noteq> CHR ''v'') (last (split_chr (CHR ''/'') id_text))
       \<and> (CHR ''v'' \<notin> set (last (split_chr (CHR ''/'') id_text)) \<longrightarrow>
            arxiv_id p = last (split_chr (CHR ''/'') id_text))
       \<and> (\<forall>b d. last (split_chr (CHR ''/'') id_text) = b @ ''v'' @ d \<and> CHR ''v'' \<notin> set b
              \<and> digit_string d \<longrightarrow> arxiv_id p = b \<and> spec_entry_id id_text = b)"
proof -
  from assms parse_entry_cases [of e] obtain i t s pub where c:
    "safe_get_text (elem_find (atom ''id'') e) = Some i" "i \<noteq> []"
    "safe_get_text (elem_find (atom ''title'') e) = Some t" "t \<noteq> []"
    "safe_get_text (elem_find (atom ''summary'') e) = Some s" "s \<noteq> []"
    "safe_get_text (elem_find (atom ''published'') e) = Some pub" "pub \<noteq> []"
    "author_names e \<noteq> []" "category_terms e \<noteq> []"
    by auto
  from assms parse_entry_complete [OF c] have "arxiv_id p = entry_id i"
    by (auto simp: new_ArxivPaper_def split: sum.splits)
  then have id: "arxiv_id p = takeWhile (\<lambda>c. c \<noteq> CHR ''v'') (last (split_chr (CHR ''/'') i))"
    by (simp add: entry_id_takeWhile)
  have whole: "arxiv_id p = last (split_chr (CHR ''/'') i)"
    if "CHR ''v'' \<notin> set (last (split_chr (CHR ''/'') i))"
    using that by (auto simp: id takeWhile_eq_all_conv)
  have cut: "arxiv_id p = b \<and> spec_entry_id i = b"
    if "last (split_chr (CHR ''/'') i) = b @ ''v'' @ d" "CHR ''v'' \<notin> set b" "digit_string d"
    for b d
  proof -
    have "takeWhile (\<lambda>c. c \<noteq> CHR ''v'') (b @ CHR ''v'' # d) = b"
      using that(2) by (intro takeWhile_tail [THEN trans]) (auto simp: takeWhile_eq_all_conv)
    then show ?thesis
      using that(1) strip_version_suffix_versioned [OF that(3), of b]
      by (simp add: id spec_entry_id_def)
  qed
  from c(1) id whole cut show ?thesis
    by auto
qed

lemma parse_entry_identifier_samples:
  "parse_entry entry_ann = Inr (Some paper_ann) \<and> arxiv_id paper_ann = ''2301.00001''
   \<and> spec_entry_id ''http://arxiv.org/abs/2301.00001v1'' = ''2301.00001''
   \<and> (\<exists>p. parse_entry entry_unversioned = Inr (Some p) \<and> arxiv_id p = ''2301.00005'')"
proof -
  have t: "safe_get_text (elem_find (atom ''id'') entry_ann)
             = Some ''http://arxiv.org/abs/2301.00001v1''"
    "last (split_chr (CHR ''/'') ''http://arxiv.org/abs/2301.00001v1'')
       = ''2301.00001'' @ ''v'' @ ''1''"
    by code_simp+
  have d: "CHR ''v'' \<notin> set ''2301.00001''" "digit_string ''1''"
    by (simp_all add: digit_string_def isdigit_def)
  have u: "parse_entry entry_unversioned =
             Inr (Some (new_ArxivPaper ''2301.00005'' ''A title'' [''Eve''] ''A summary''
                    [''cs.AI''] ''2023-01-05'' None None None None))"
    "safe_get_text (elem_find (atom ''id'') entry_unversioned)
       = Some ''http://arxiv.org/abs/2301.00005''"
    "last (split_chr (CHR ''/'') ''http://arxiv.org/abs/2301.00005'') = ''2301.00005''"
    by code_simp+
  have nv: "CHR ''v'' \<notin> set ''2301.00005''"
    by simp
  from parse_entry_identifier [OF sample_entries_parsed(1)] t d sample_entries_parsed(1)
  have 1: "parse_entry entry_ann = Inr (Some paper_ann) \<and> arxiv_id paper_ann = ''2301.00001''
     \<and> spec_entry_id ''http://arxiv.org/abs/2301.00001v1'' = ''2301.00001''"
    by auto
  from parse_entry_identifier [OF u(1)] u nv
  have 2: "\<exists>p. parse_entry entry_unversioned = Inr (Some p) \<and> arxiv_id p = ''2301.00005''"
    by auto
  from 1 2 show ?thesis
    by blast
qed

text \<open>
  C9. The claim asks that a last segment without version suffix is kept unchanged. The
  identifier text of the entry below ends in the segment \<open>survey\<close>, which has no version
  suffix and which the specification's wording keeps whole; the parsed paper gets the
  identifier \<open>sur\<close>, since the code splits at the first \<open>v\<close> without testing that digits
  follow up to the end.
\<close>

theorem parse_entry_identifier_cut_at_v:
  "map_sum id (map_option arxiv_id) (parse_entry entry_survey) = Inr (Some ''sur'')
   \<and> safe_get_text (elem_find (atom ''id'') entry_survey) = Some ''http://arxiv.org/abs/survey''
   \<and> last (split_chr (CHR ''/'') ''http://arxiv.org/abs/survey'') = ''survey''
   \<and> spec_entry_id ''http://arxiv.org/abs/survey'' = ''survey''"
  by code_simp

end
